theory Spec2Isabelle
  imports Complex_Main
begin

section \<open>Strings of the JavaScript runtime\<close>

text \<open>
  Every string the worker handles comes out of an HTTP header (\<^verbatim>\<open>Headers.get\<close>), whose
  values are byte strings: one code unit per byte. A JavaScript string is therefore a
  \<^typ>\<open>string\<close>, one \<^typ>\<open>char\<close> per code unit in the range 0..255.
\<close>

text \<open>\<^verbatim>\<open>String.prototype.toLowerCase\<close> on one code unit below 256: the letters A..Z and the
  Latin-1 capitals U+00C0..U+00DE (U+00D7, the multiplication sign, apart) move up by 32.\<close>

definition lowerChar :: "char \<Rightarrow> char" where
  "lowerChar c =
     (let n = (of_char c :: nat)
      in if (65 \<le> n \<and> n \<le> 90) \<or> (192 \<le> n \<and> n \<le> 222 \<and> n \<noteq> 215)
         then char_of (n + 32) else c)"

definition toLowerCase :: "string \<Rightarrow> string" where
  "toLowerCase s = map lowerChar s"

text \<open>\<^verbatim>\<open>s.startsWith(w)\<close>.\<close>

fun startsWith :: "string \<Rightarrow> string \<Rightarrow> bool" where
  "startsWith s [] = True"
| "startsWith [] (c # w) = False"
| "startsWith (d # s) (c # w) = (d = c \<and> startsWith s w)"

text \<open>\<^verbatim>\<open>s.includes(w)\<close>: \<open>w\<close> starts at some position of \<open>s\<close>.\<close>

fun includes_js :: "string \<Rightarrow> string \<Rightarrow> bool" where
  "includes_js [] w = (w = [])"
| "includes_js (d # s) w = (startsWith (d # s) w \<or> includes_js s w)"

section \<open>The OS family\<close>

text \<open>
  \<^verbatim>\<open>
  function getOsFamily(os: string | null): string | null {
    const lower = os?.toLowerCase() ?? null;
    if (!lower) return null;
    if (lower.includes('windows')) return 'Windows';
    if (lower.includes('macos')) return 'macOS';
    if (['linux', 'flatpak'].some((term) => lower.includes(term))) return 'Linux';
    if (lower.includes('bsd')) return 'BSD';
    return 'Other';
  }
  \<close>
  \<open>null\<close> is \<open>None\<close>; \<^verbatim>\<open>!lower\<close> holds for \<open>null\<close> and for the empty string.
\<close>

definition getOsFamily :: "string option \<Rightarrow> string option" where
  "getOsFamily os =
     (case map_option toLowerCase os of
        None \<Rightarrow> None
      | Some lower \<Rightarrow>
          if lower = [] then None
          else if includes_js lower ''windows'' then Some ''Windows''
          else if includes_js lower ''macos'' then Some ''macOS''
          else if list_ex (\<lambda>term. includes_js lower term) [''linux'', ''flatpak''] then Some ''Linux''
          else if includes_js lower ''bsd'' then Some ''BSD''
          else Some ''Other'')"


section \<open>Regular expressions, split and trim\<close>

text \<open>
  The worker's regular expressions are sequences of literals and of \<^verbatim>\<open>.+\<close>, captured
  (\<^verbatim>\<open>(.+)\<close>) or not. \<^verbatim>\<open>.\<close> is any code unit but a line terminator; \<^verbatim>\<open>.+\<close> is
  greedy: the matcher tries the longest run first and backs off one code unit at a time
  until the rest of the expression matches, as ECMAScript's backtracking matcher does.
\<close>

datatype rx_item = Lit string | Dots | Group

definition isLineTerminator :: "char \<Rightarrow> bool" where
  "isLineTerminator c = (c = CHR 0x0A \<or> c = CHR 0x0D)"

definition dotRun :: "string \<Rightarrow> nat" where
  "dotRun s = length (takeWhile (\<lambda>c. \<not> isLineTerminator c) s)"

fun firstSome :: "('a \<Rightarrow> 'b option) \<Rightarrow> 'a list \<Rightarrow> 'b option" where
  "firstSome f [] = None"
| "firstSome f (x # xs) = (case f x of Some y \<Rightarrow> Some y | None \<Rightarrow> firstSome f xs)"

text \<open>A match of the items at the start of \<open>s\<close>: the number of code units consumed and
  the captured groups, in order.\<close>

fun matchHere :: "rx_item list \<Rightarrow> string \<Rightarrow> (nat \<times> string list) option" where
  "matchHere [] s = Some (0, [])"
| "matchHere (Lit l # r) s =
     (if startsWith s l
      then map_option (\<lambda>(n, groups). (length l + n, groups)) (matchHere r (drop (length l) s))
      else None)"
| "matchHere (Dots # r) s =
     firstSome (\<lambda>k. map_option (\<lambda>(n, groups). (k + n, groups)) (matchHere r (drop k s)))
       (rev [1..<Suc (dotRun s)])"
| "matchHere (Group # r) s =
     firstSome (\<lambda>k. map_option (\<lambda>(n, groups). (k + n, take k s # groups)) (matchHere r (drop k s)))
       (rev [1..<Suc (dotRun s)])"

text \<open>\<^verbatim>\<open>rx.exec(s)\<close> without flags: the match at the leftmost position that has one, as the
  array of the matched text followed by the groups; \<open>None\<close> is \<open>null\<close>.
  \<^verbatim>\<open>rx.test(s)\<close> says whether there is one.\<close>

definition rx_exec :: "rx_item list \<Rightarrow> string \<Rightarrow> string list option" where
  "rx_exec rx s =
     firstSome (\<lambda>i. map_option (\<lambda>(n, groups). take n (drop i s) # groups) (matchHere rx (drop i s)))
       [0..<Suc (length s)]"

definition rx_test :: "rx_item list \<Rightarrow> string \<Rightarrow> bool" where
  "rx_test rx s = (rx_exec rx s \<noteq> None)"

text \<open>\<^verbatim>\<open>s.split(';')\<close> for a separator of one code unit: the pieces between the
  separators, at least one piece.\<close>

fun split_js :: "char \<Rightarrow> string \<Rightarrow> string list" where
  "split_js sep [] = [[]]"
| "split_js sep (c # s) =
     (if c = sep then [] # split_js sep s
      else (c # hd (split_js sep s)) # tl (split_js sep s))"

text \<open>\<^verbatim>\<open>s.trim()\<close>: the white space and line terminators below 256 are TAB, LF, VT, FF, CR,
  SPACE and the no-break space.\<close>

definition isWhiteSpace :: "char \<Rightarrow> bool" where
  "isWhiteSpace c = ((of_char c :: nat) \<in> {9, 10, 11, 12, 13, 32, 160})"

definition trim :: "string \<Rightarrow> string" where
  "trim s = rev (dropWhile isWhiteSpace (rev (dropWhile isWhiteSpace s)))"

text \<open>\<^verbatim>\<open>xs[i] ?? null\<close>: an index past the end of an array reads \<open>undefined\<close>.\<close>

definition nth_or_null :: "'a list \<Rightarrow> nat \<Rightarrow> 'a option" where
  "nth_or_null xs i = (if i < length xs then Some (xs ! i) else None)"

section \<open>Parsing the User-Agent\<close>

datatype error = Error string | TypeError string

text \<open>The headers of a request, by lower-case name: \<^verbatim>\<open>Headers.get\<close> ignores the case of
  the name it is given, and answers \<open>null\<close> for a header that is absent.\<close>

type_synonym headers = "string \<rightharpoonup> string"

definition headers_get :: "headers \<Rightarrow> string \<Rightarrow> string option" where
  "headers_get h name = h (toLowerCase name)"

record info =
  os :: "string option"
  osFamily :: "string option"
  appLanguage :: "string option"
  appVersion :: "string option"

text \<open>\<^verbatim>\<open>/Deskflow\/(.+) \((.+)\)/\<close> and \<^verbatim>\<open>/Deskflow .+ on (.+)/\<close>.\<close>

definition rfc9110 :: "rx_item list" where
  "rfc9110 = [Lit ''Deskflow/'', Group, Lit '' ('', Group, Lit '')'']"

definition legacyOs :: "rx_item list" where
  "legacyOs = [Lit ''Deskflow '', Dots, Lit '' on '', Group]"

text \<open>
  \<^verbatim>\<open>
  function parseUserAgent(userAgent: string, headers: Headers) {
    if (!userAgent.includes('Deskflow')) { return null; }
    const rfc9110 = /Deskflow\/(.+) \((.+)\)/;
    if (rfc9110.test(userAgent)) {
      const parts = rfc9110.exec(userAgent);
      if (!parts) { throw new Error('Invalid RFC 9110 User-Agent format'); }
      const metadata = parts[2].split(';').map((part) => part.trim());
      const os = metadata[0] ?? null;
      const osFamily = getOsFamily(metadata[1] ?? null);
      const appVersion = metadata[2] ?? null;
      const appLanguage = metadata[3] ?? null;
      return { os, osFamily, appLanguage, appVersion };
    } else {
      const appLanguage = headers.get('X-Deskflow-Language') ?? null;
      const appVersion = headers.get('X-Deskflow-Version') ?? null;
      const os = userAgent ? /Deskflow .+ on (.+)/.exec(userAgent)?.[1] ?? null : null;
      const osFamily = getOsFamily(os);
      return { os, osFamily, appLanguage, appVersion };
    }
  }
  \<close>
  A thrown error is \<open>Inl\<close>; the result \<open>null\<close> is \<open>Inr None\<close>.
\<close>

definition parseUserAgent :: "string \<Rightarrow> headers \<Rightarrow> error + info option" where
  "parseUserAgent userAgent headers =
     (if \<not> includes_js userAgent ''Deskflow'' then Inr None
      else if rx_test rfc9110 userAgent then
        (case rx_exec rfc9110 userAgent of
           None \<Rightarrow> Inl (Error ''Invalid RFC 9110 User-Agent format'')
         | Some parts \<Rightarrow>
             let metadata = map trim (split_js CHR '';'' (parts ! 2))
             in Inr (Some \<lparr>os = nth_or_null metadata 0,
                            osFamily = getOsFamily (nth_or_null metadata 1),
                            appLanguage = nth_or_null metadata 3,
                            appVersion = nth_or_null metadata 2\<rparr>))
      else
        Inr (Some
          (let appLanguage = headers_get headers ''X-Deskflow-Language'';
               appVersion = headers_get headers ''X-Deskflow-Version'';
               os = (if userAgent = [] then None
                     else map_option (\<lambda>m. m ! 1) (rx_exec legacyOs userAgent))
           in \<lparr>os = os, osFamily = getOsFamily os,
               appLanguage = appLanguage, appVersion = appVersion\<rparr>)))"

section \<open>Objects that count\<close>

text \<open>
  A \<^verbatim>\<open>Record<string, number>\<close> is the list of its own properties in the order of their
  creation, each key once. Reading a key that is absent gives \<open>undefined\<close>; writing a key
  that is present keeps its place, writing a new key appends it.
\<close>

type_synonym counts = "(string \<times> int) list"

definition obj_get :: "counts \<Rightarrow> string \<Rightarrow> int option" where
  "obj_get obj k = map_of obj k"

fun obj_set :: "counts \<Rightarrow> string \<Rightarrow> int \<Rightarrow> counts" where
  "obj_set [] k v = [(k, v)]"
| "obj_set ((k', v') # ps) k v =
     (if k' = k then (k, v) # ps else (k', v') # obj_set ps k v)"

text \<open>
  The order in which JavaScript enumerates the own properties of an object
  (\<^verbatim>\<open>Object.entries\<close>, \<^verbatim>\<open>Object.fromEntries\<close> read back, \<^verbatim>\<open>JSON.stringify\<close>): first
  the keys that are array indices (the decimal numerals of 0 .. 2^32 - 2, no leading
  zero), in ascending numeric order, then the other keys in the order of their creation.
\<close>

definition isDigit :: "char \<Rightarrow> bool" where
  "isDigit c = (48 \<le> (of_char c :: nat) \<and> (of_char c :: nat) \<le> 57)"

definition digitsValue :: "string \<Rightarrow> int" where
  "digitsValue k = foldl (\<lambda>n c. 10 * n + (of_char c - 48)) 0 k"

definition isArrayIndex :: "string \<Rightarrow> bool" where
  "isArrayIndex k =
     (k \<noteq> [] \<and> list_all isDigit k \<and> (k = ''0'' \<or> hd k \<noteq> CHR ''0'')
      \<and> digitsValue k < 4294967295)"

definition Object_entries :: "counts \<Rightarrow> (string \<times> int) list" where
  "Object_entries obj =
     sort_key (\<lambda>(k, v). digitsValue k) (filter (\<lambda>(k, v). isArrayIndex k) obj)
     @ filter (\<lambda>(k, v). \<not> isArrayIndex k) obj"

definition Object_fromEntries :: "(string \<times> int) list \<Rightarrow> counts" where
  "Object_fromEntries entries = fold (\<lambda>(k, v) obj. obj_set obj k v) entries []"

text \<open>\<^verbatim>\<open>Array.prototype.sort(cmp)\<close> is stable: with a consistent comparator it is the
  insertion sort that puts an element before the first one it does not come after.\<close>

fun insertBy :: "('a \<Rightarrow> 'a \<Rightarrow> int) \<Rightarrow> 'a \<Rightarrow> 'a list \<Rightarrow> 'a list" where
  "insertBy cmp x [] = [x]"
| "insertBy cmp x (y # ys) = (if cmp x y \<le> 0 then x # y # ys else y # insertBy cmp x ys)"

definition Array_sort :: "('a \<Rightarrow> 'a \<Rightarrow> int) \<Rightarrow> 'a list \<Rightarrow> 'a list" where
  "Array_sort cmp xs = foldr (insertBy cmp) xs []"

text \<open>
  \<^verbatim>\<open>
  function sortByValueDesc<T extends Record<string, number>>(obj: T): T {
    return Object.fromEntries(Object.entries(obj).sort(([, a], [, b]) => b - a)) as T;
  }
  \<close>
\<close>

definition sortByValueDesc :: "counts \<Rightarrow> counts" where
  "sortByValueDesc obj =
     Object_fromEntries (Array_sort (\<lambda>(_, a) (_, b). b - a) (Object_entries obj))"

section \<open>The monthly statistics\<close>

text \<open>\<^verbatim>\<open>type Stats\<close>: every field is optional.\<close>

record Stats =
  stats_votes :: "int option"
  stats_os :: "counts option"
  stats_osFamily :: "counts option"
  stats_language :: "counts option"
  stats_version :: "counts option"

text \<open>The empty object \<^verbatim>\<open>{}\<close> that \<^verbatim>\<open>getStats\<close> answers for a month without a bucket.\<close>

definition noStats :: Stats where
  "noStats = \<lparr>stats_votes = None, stats_os = None, stats_osFamily = None,
              stats_language = None, stats_version = None\<rparr>"

text \<open>\<^verbatim>\<open>!x\<close> on a string or \<open>null\<close>: \<open>null\<close> and the empty string are falsy.\<close>

definition falsy :: "string option \<Rightarrow> bool" where
  "falsy x = (x = None \<or> x = Some [])"

text \<open>
  One of the four blocks of \<^verbatim>\<open>updatePopularityContest\<close>, for the category \<open>category\<close> and
  the value \<open>x\<close> of the info:
  \<^verbatim>\<open>
  if (x) {
    if (!stats.category) stats.category = {};
    stats.category[x] = (stats.category[x] ?? 0) + 1;
  }
  \<close>
\<close>

definition countValue :: "counts option \<Rightarrow> string option \<Rightarrow> counts option" where
  "countValue category x =
     (if falsy x then category
      else
        let obj = (case category of None \<Rightarrow> [] | Some obj \<Rightarrow> obj);
            key = the x
        in Some (obj_set obj key ((case obj_get obj key of None \<Rightarrow> 0 | Some n \<Rightarrow> n) + 1)))"

text \<open>Lines 296 to 316 of \<^verbatim>\<open>updatePopularityContest\<close>: the increment of the bucket.
  \<^verbatim>\<open>stats.votes = (stats.votes ?? 0) + 1;\<close> and then the four blocks, for
  \<open>os\<close>, \<open>osFamily\<close>, \<open>appLanguage\<close> and \<open>appVersion\<close>.\<close>

definition incrementStats :: "info \<Rightarrow> Stats \<Rightarrow> Stats" where
  "incrementStats i stats =
     \<lparr>stats_votes = Some ((case stats_votes stats of None \<Rightarrow> 0 | Some n \<Rightarrow> n) + 1),
      stats_os = countValue (stats_os stats) (os i),
      stats_osFamily = countValue (stats_osFamily stats) (osFamily i),
      stats_language = countValue (stats_language stats) (appLanguage i),
      stats_version = countValue (stats_version stats) (appVersion i)\<rparr>"

section \<open>The world of the worker\<close>

text \<open>
  What a request can see and change: the KV namespace \<^verbatim>\<open>APP_VERSION\<close>, the storage of the
  two durable objects, the secret, the clock and GitHub. A value of \<^verbatim>\<open>SlowKV\<close> and of
  \<^verbatim>\<open>VotesByIP\<close> is stored as JSON text; the model stores the value the text encodes.
  The calls made to the stores and to GitHub are recorded in \<open>trace\<close>, oldest first.
\<close>

record metadata =
  fetchedAt :: "string option"

record kv_entry =
  kv_value :: string
  kv_metadata :: "metadata option"

text \<open>\<^verbatim>\<open>type Votes\<close>.\<close>

record Votes =
  isoDateText :: string
  vote_userAgent :: string

datatype event =
    KVGet string | KVPut string | GitHubListReleases
  | SlowKVGet string | SlowKVSet string | FindVotes string | RecordVote string

record release =
  tag_name :: string

record 'v world =
  APP_VERSION :: "string \<rightharpoonup> kv_entry"
  kvPutFails :: bool
  SlowKV :: "string \<rightharpoonup> 'v"
  VotesByIP :: "string \<rightharpoonup> Votes list"
  GITHUB_TOKEN :: "string option"
  github :: "error + release list"
  nowMs :: int
  nowIso :: string
  lastMonthIso :: string
  trace :: "event list"

text \<open>
  \<open>kvPutFails\<close>: the KV namespace rejects a write (its quota or rate limit is reached).
  \<open>github\<close>: what \<^verbatim>\<open>octokit.repos.listReleases\<close> answers, an error thrown or the releases.
  \<open>nowMs\<close> is \<^verbatim>\<open>Date.now()\<close>, \<open>nowIso\<close> is \<^verbatim>\<open>new Date().toISOString()\<close> and \<open>lastMonthIso\<close>
  is \<^verbatim>\<open>new Date(date.getFullYear(), date.getMonth() - 1, 1).toISOString()\<close>, all read at
  the instant of the request.
\<close>

definition logged :: "event \<Rightarrow> 'v world \<Rightarrow> 'v world" where
  "logged e w = w\<lparr>trace := trace w @ [e]\<rparr>"

text \<open>\<^verbatim>\<open>SlowKV.set\<close>, \<^verbatim>\<open>SlowKV.getString\<close> and \<^verbatim>\<open>SlowKV.getStats\<close>.\<close>

definition SlowKV_set :: "string \<Rightarrow> 'v \<Rightarrow> 'v world \<Rightarrow> 'v world" where
  "SlowKV_set key data w = logged (SlowKVSet key) (w\<lparr>SlowKV := (SlowKV w)(key \<mapsto> data)\<rparr>)"

definition SlowKV_getString :: "string \<Rightarrow> string world \<Rightarrow> string option \<times> string world" where
  "SlowKV_getString key w = (SlowKV w key, logged (SlowKVGet key) w)"

definition SlowKV_getStats :: "string \<Rightarrow> Stats world \<Rightarrow> Stats \<times> Stats world" where
  "SlowKV_getStats key w =
     ((case SlowKV w key of None \<Rightarrow> noStats | Some stats \<Rightarrow> stats), logged (SlowKVGet key) w)"

text \<open>
  \<^verbatim>\<open>
  async recordVote(votes: Votes[], ip: string, userAgent: string) {
    const data = [...votes, { isoDateText: new Date().toISOString(), userAgent }];
    await this.ctx.storage.put(ip, JSON.stringify(data));
  }
  async findVotes(ip: string): Promise<Votes[]> {
    const record = await this.ctx.storage.get<string>(ip);
    if (record == null) { return []; }
    const data = JSON.parse(record) as Votes[];
    return data;
  }
  \<close>
\<close>

definition recordVote :: "Votes list \<Rightarrow> string \<Rightarrow> string \<Rightarrow> 'v world \<Rightarrow> 'v world" where
  "recordVote votes ip userAgent w =
     (let data = votes @ [\<lparr>isoDateText = nowIso w, vote_userAgent = userAgent\<rparr>]
      in logged (RecordVote ip) (w\<lparr>VotesByIP := (VotesByIP w)(ip \<mapsto> data)\<rparr>))"

definition findVotes :: "string \<Rightarrow> 'v world \<Rightarrow> Votes list \<times> 'v world" where
  "findVotes ip w =
     ((case VotesByIP w ip of None \<Rightarrow> [] | Some data \<Rightarrow> data), logged (FindVotes ip) w)"

text \<open>
  \<^verbatim>\<open>
  function hasVoted(data: Votes[], userAgent: string): boolean {
    const now = new Date().toISOString().slice(0, 10);
    const result = data.some((vote) => {
      return vote.userAgent === userAgent && vote.isoDateText.slice(0, 10) === now;
    });
    return result;
  }
  \<close>
\<close>

definition hasVoted :: "Votes list \<Rightarrow> string \<Rightarrow> 'v world \<Rightarrow> bool" where
  "hasVoted data userAgent w =
     (let now = take 10 (nowIso w)
      in list_ex (\<lambda>vote. vote_userAgent vote = userAgent \<and> take 10 (isoDateText vote) = now) data)"

section \<open>The popularity contest\<close>

record request =
  pathname :: string
  searchParams :: "string \<rightharpoonup> string"
  headers :: headers

text \<open>
  \<^verbatim>\<open>
  async function updatePopularityContest(request, env, ctx): Promise<void> {
    const userAgent = request.headers.get('user-agent') ?? null;
    if (!userAgent) throw new Error('User-Agent header is missing');
    const info = parseUserAgent(userAgent, request.headers);
    if (!info) { return; }
    const { os, osFamily, appLanguage, appVersion } = info;
    if (!os && !osFamily && !appLanguage && !appVersion) { return; }
    const votesByIP = getVotesByIP(env);
    const ip = request.headers.get('cf-connecting-ip');
    if (!ip) throw new Error('Header missing: cf-connecting-ip');
    const votes = await votesByIP.findVotes(ip);
    if (hasVoted(votes, userAgent)) { return; }
    const date = new Date();
    const monthKey = date.toISOString().substring(0, 7); // e.g. "2024-04"
    const slowKV = getSlowKV(env);
    const stats = await slowKV.getStats(monthKey);
    stats.votes = (stats.votes ?? 0) + 1;
    ... the four blocks ...
    const statsPromise = slowKV.set(monthKey, JSON.stringify(stats));
    ctx.waitUntil(statsPromise);
    const votePromise = votesByIP.recordVote(votes, ip, userAgent);
    ctx.waitUntil(votePromise);
  }
  \<close>
  The two writes are started in this order and awaited by the runtime; the model runs
  them at once, one request after the other.
\<close>

definition updatePopularityContest :: "request \<Rightarrow> Stats world \<Rightarrow> (error + unit) \<times> Stats world" where
  "updatePopularityContest request w =
     (let userAgent = headers_get (headers request) ''user-agent'' in
      if falsy userAgent then (Inl (Error ''User-Agent header is missing''), w)
      else
        case parseUserAgent (the userAgent) (headers request) of
          Inl e \<Rightarrow> (Inl e, w)
        | Inr None \<Rightarrow> (Inr (), w)
        | Inr (Some i) \<Rightarrow>
            if falsy (os i) \<and> falsy (osFamily i) \<and> falsy (appLanguage i) \<and> falsy (appVersion i)
            then (Inr (), w)
            else
              let ip = headers_get (headers request) ''cf-connecting-ip'' in
              if falsy ip then (Inl (Error ''Header missing: cf-connecting-ip''), w)
              else
                let (votes, w1) = findVotes (the ip) w in
                if hasVoted votes (the userAgent) w1 then (Inr (), w1)
                else
                  let monthKey = take 7 (nowIso w1);
                      (stats, w2) = SlowKV_getStats monthKey w1;
                      w3 = SlowKV_set monthKey (incrementStats i stats) w2;
                      w4 = recordVote votes (the ip) (the userAgent) w3
                  in (Inr (), w4))"

text \<open>
  \<^verbatim>\<open>
  async function getSortedStats(env: Env, entryKey: string): Promise<Stats> {
    const slowKV = getSlowKV(env);
    const stats = await slowKV.getStats(entryKey);
    return {
      votes: stats.votes,
      osFamily: stats.osFamily ? sortByValueDesc(stats.osFamily) : {},
      os: stats.os ? sortByValueDesc(stats.os) : {},
      language: stats.language ? sortByValueDesc(stats.language) : {},
      version: stats.version ? sortByValueDesc(stats.version) : {},
    };
  }
  \<close>
\<close>

definition sortedOrEmpty :: "counts option \<Rightarrow> counts option" where
  "sortedOrEmpty category = Some (case category of None \<Rightarrow> [] | Some obj \<Rightarrow> sortByValueDesc obj)"

definition getSortedStats :: "string \<Rightarrow> Stats world \<Rightarrow> Stats \<times> Stats world" where
  "getSortedStats entryKey w =
     (let (stats, w1) = SlowKV_getStats entryKey w
      in (\<lparr>stats_votes = stats_votes stats,
           stats_os = sortedOrEmpty (stats_os stats),
           stats_osFamily = sortedOrEmpty (stats_osFamily stats),
           stats_language = sortedOrEmpty (stats_language stats),
           stats_version = sortedOrEmpty (stats_version stats)\<rparr>, w1))"

section \<open>The version endpoint\<close>

datatype content = Text string | IndexHtml | StatsJson string Stats string Stats

record response =
  status :: nat
  body :: content

text \<open>\<^verbatim>\<open>new Response(text)\<close>: the status is 200.\<close>

definition ok :: "string \<Rightarrow> response" where
  "ok text = \<lparr>status = 200, body = Text text\<rparr>"

definition cacheAgeSeconds :: rat where
  "cacheAgeSeconds = 60 * 5"

text \<open>\<^verbatim>\<open>versionRaw.replace(/^v/, '')\<close>.\<close>

definition stripV :: "string \<Rightarrow> string" where
  "stripV versionRaw = (if startsWith versionRaw ''v'' then drop 1 versionRaw else versionRaw)"

text \<open>\<^verbatim>\<open>env.APP_VERSION.getWithMetadata(key)\<close>: value and metadata are \<open>null\<close> for a key
  that is absent. \<^verbatim>\<open>env.APP_VERSION.put(key, value, {metadata})\<close> throws when the namespace
  rejects the write.\<close>

definition APP_VERSION_getWithMetadata ::
  "string \<Rightarrow> 'v world \<Rightarrow> (string option \<times> metadata option) \<times> 'v world" where
  "APP_VERSION_getWithMetadata key w =
     ((case APP_VERSION w key of
         None \<Rightarrow> (None, None)
       | Some e \<Rightarrow> (Some (kv_value e), kv_metadata e)),
      logged (KVGet key) w)"

definition APP_VERSION_put ::
  "string \<Rightarrow> string \<Rightarrow> metadata \<Rightarrow> 'v world \<Rightarrow> (error + unit) \<times> 'v world" where
  "APP_VERSION_put key v md w =
     (if kvPutFails w then (Inl (Error ''KV put failed''), logged (KVPut key) w)
      else (Inr (),
            logged (KVPut key)
              (w\<lparr>APP_VERSION := (APP_VERSION w)(key \<mapsto> \<lparr>kv_value = v, kv_metadata = Some md\<rparr>)\<rparr>)))"

text \<open>
  Lines 158 to 193 of \<^verbatim>\<open>version\<close>, after a cache miss:
  \<^verbatim>\<open>
  if (!env.GITHUB_TOKEN) { throw new Error('Secret not found: GITHUB_TOKEN'); }
  const octokit = new Octokit({ auth: env.GITHUB_TOKEN, userAgent: 'Deskflow API' });
  const { data: releases } = await octokit.repos.listReleases({ ... });
  if (releases.length === 0) {
    return new Response('No releases found', { status: 404 });
  }
  const filteredReleases = releases.filter((release) => release.tag_name !== 'continuous');
  if (filteredReleases.length == 0) {
    return new Response('No releases found (except continuous)', { status: 404 });
  }
  const versionRaw = filteredReleases[0].tag_name;
  const version = versionRaw.replace(/^v/, '');
  await env.APP_VERSION.put('latest', version, {
    metadata: { fetchedAt: new Date().toISOString() },
  });
  return new Response(version);
  \<close>
\<close>

definition version_miss :: "'v world \<Rightarrow> (error + response) \<times> 'v world" where
  "version_miss w =
     (if falsy (GITHUB_TOKEN w) then (Inl (Error ''Secret not found: GITHUB_TOKEN''), w)
      else
        let w1 = logged GitHubListReleases w in
        case github w1 of
          Inl e \<Rightarrow> (Inl e, w1)
        | Inr releases \<Rightarrow>
            if length releases = 0
            then (Inr \<lparr>status = 404, body = Text ''No releases found''\<rparr>, w1)
            else
              let filteredReleases = filter (\<lambda>release. tag_name release \<noteq> ''continuous'') releases in
              if length filteredReleases = 0
              then (Inr \<lparr>status = 404, body = Text ''No releases found (except continuous)''\<rparr>, w1)
              else
                let versionRaw = tag_name (filteredReleases ! 0);
                    latest = stripV versionRaw
                in (case APP_VERSION_put ''latest'' latest \<lparr>fetchedAt = Some (nowIso w1)\<rparr> w1 of
                      (Inl e, w2) \<Rightarrow> (Inl e, w2)
                    | (Inr u, w2) \<Rightarrow> (Inr (ok latest), w2)))"

text \<open>
  \<^verbatim>\<open>
  async function version(request: Request, env: Env): Promise<Response> {
    const url = new URL(request.url);
    const fake = url.searchParams.get('fake');
    if (fake) { return new Response(fake); }
    const { value: cachedVersion, metadata } = await env.APP_VERSION.getWithMetadata('latest');
    if (cachedVersion) {
      const { fetchedAt } = metadata as { fetchedAt: string };
      if (!fetchedAt) throw new Error('Metadata missing field: fetchedAt');
      const fetchedAtDate = new Date(fetchedAt);
      const ageSeconds = (Date.now() - fetchedAtDate.getTime()) / 1000;
      const isValid = ageSeconds < cacheAgeSeconds;
      if (isValid) { return new Response(cachedVersion); }
    }
    ... lines 158 to 193 ...
  }
  \<close>
  \<open>Date_parse\<close> is the time value of \<^verbatim>\<open>new Date(text)\<close>, in milliseconds, \<open>None\<close> for
  an invalid date, whose \<^verbatim>\<open>getTime()\<close> is \<open>NaN\<close> and compares false. Destructuring the
  metadata \<open>null\<close> throws a \<open>TypeError\<close>. The difference of two time values and its
  quotient by 1000 are exact in the range of dates.
\<close>

definition version ::
  "(string \<Rightarrow> int option) \<Rightarrow> request \<Rightarrow> 'v world \<Rightarrow> (error + response) \<times> 'v world" where
  "version Date_parse request w =
     (let fake = searchParams request ''fake'' in
      if \<not> falsy fake then (Inr (ok (the fake)), w)
      else
        let ((cachedVersion, md), w1) = APP_VERSION_getWithMetadata ''latest'' w in
        if \<not> falsy cachedVersion then
          (case md of
             None \<Rightarrow> (Inl (TypeError ''Cannot destructure property fetchedAt of null''), w1)
           | Some m \<Rightarrow>
               if falsy (fetchedAt m) then (Inl (Error ''Metadata missing field: fetchedAt''), w1)
               else
                 let ageSeconds =
                       map_option (\<lambda>t. of_int (nowMs w1 - t) / 1000) (Date_parse (the (fetchedAt m)));
                     isValid = (case ageSeconds of None \<Rightarrow> False | Some age \<Rightarrow> age < cacheAgeSeconds)
                 in if isValid then (Inr (ok (the cachedVersion)), w1) else version_miss w1)
        else version_miss w1)"

section \<open>The request handler\<close>

definition repoUrl :: string where
  "repoUrl = ''https://github.com/deskflow/deskflow-api''"

text \<open>\<^verbatim>\<open>index(url)\<close>: the static page, \<open>IndexHtml\<close>, unless the query has \<^verbatim>\<open>testError\<close>.\<close>

definition index :: "request \<Rightarrow> error + response" where
  "index request =
     (if searchParams request ''testError'' \<noteq> None then Inl (Error ''Test error'')
      else Inr \<lparr>status = 200, body = IndexHtml\<rparr>)"

text \<open>\<^verbatim>\<open>stats(env)\<close>: the sorted buckets of this month and of the last one, as JSON.\<close>

definition stats :: "Stats world \<Rightarrow> (error + response) \<times> Stats world" where
  "stats w =
     (let thisMonthKey = take 7 (nowIso w);
          lastMonthKey = take 7 (lastMonthIso w);
          (thisMonth, w1) = getSortedStats thisMonthKey w;
          (lastMonth, w2) = getSortedStats lastMonthKey w1
      in (Inr \<lparr>status = 200, body = StatsJson thisMonthKey thisMonth lastMonthKey lastMonth\<rparr>, w2))"

text \<open>
  \<^verbatim>\<open>
  async function handleRequest(request, env, ctx): Promise<Response> {
    try {
      await updatePopularityContest(request, env, ctx);
    } catch (error) {
      console.warn('Error updating popularity contest:', error);
    }
    const url = new URL(request.url);
    if (url.pathname === '/') {
      return index(url);
    } else if (url.pathname.startsWith('/version')) {
      return await version(request, env);
    } else if (url.pathname.startsWith('/stats')) {
      return await stats(env);
    } else {
      return new Response('Not found', { status: 404 });
    }
  }
  \<close>
\<close>

definition handleRequest ::
  "(string \<Rightarrow> int option) \<Rightarrow> request \<Rightarrow> Stats world \<Rightarrow> (error + response) \<times> Stats world" where
  "handleRequest Date_parse request w =
     (let (outcome, w1) = updatePopularityContest request w in
      if pathname request = ''/'' then (index request, w1)
      else if startsWith (pathname request) ''/version'' then version Date_parse request w1
      else if startsWith (pathname request) ''/stats'' then stats w1
      else (Inr \<lparr>status = 404, body = Text ''Not found''\<rparr>, w1))"

text \<open>
  \<^verbatim>\<open>
  async fetch(request, env, ctx): Promise<Response> {
    try {
      return await handleRequest(request, env, ctx);
    } catch (error) {
      const requestId = request.headers.get('cf-ray') ?? 'unknown';
      const message = `Server error. Please report this issue with the request ID
        ${requestId} at ${repoUrl}/issues`;
      return new Response(message, { status: 500 });
    }
  }
  \<close>
\<close>

definition serverError :: "string \<Rightarrow> response" where
  "serverError requestId =
     \<lparr>status = 500,
      body = Text (''Server error. Please report this issue with the request ID ''
                   @ requestId @ '' at '' @ repoUrl @ ''/issues'')\<rparr>"

definition fetch ::
  "(string \<Rightarrow> int option) \<Rightarrow> request \<Rightarrow> Stats world \<Rightarrow> response \<times> Stats world" where
  "fetch Date_parse request w =
     (case handleRequest Date_parse request w of
        (Inr r, w1) \<Rightarrow> (r, w1)
      | (Inl e, w1) \<Rightarrow>
          let requestId = (case headers_get (headers request) ''cf-ray'' of
                             None \<Rightarrow> ''unknown'' | Some ray \<Rightarrow> ray)
          in (serverError requestId, w1))"

section \<open>The version endpoint with the slow store behind it\<close>

text \<open>
  The snapshot \<^verbatim>\<open>part_002\<close> of the worker differs from the last one in \<^verbatim>\<open>version\<close>: the
  cache lives 2 minutes, GitHub is asked without a token, the slow store is read before
  GitHub, and a failed write of the cache is caught:
  \<^verbatim>\<open>
    const { value: cachedVersion, metadata } = await env.APP_VERSION.getWithMetadata('latest');
    if (cachedVersion) {
      ... as above; if (ageSeconds < cacheAgeSeconds) { return new Response(cachedVersion); }
    }
    // HACK: Temporarily use the slow KV for reads, until our daily limits are lifted.
    const slowKV = getSlowKV(env);
    const slowCachedVersion = await slowKV.getString('version');
    if (slowCachedVersion) { return new Response(slowCachedVersion); }
    const octokit = new Octokit();
    const { data: releases } = await octokit.repos.listReleases({ ... });
    ... the two 404 answers, versionRaw and version as above ...
    try {
      await env.APP_VERSION.put('latest', version, {
        metadata: { fetchedAt: new Date().toISOString() },
      });
    } catch (error) {
      // HACK: Temporarily use the slow KV for reads, until our daily limits are lifted.
      const slowKV = getSlowKV(env);
      await slowKV.set('version', version);
    }
    return new Response(version);
  \<close>
\<close>

definition cacheAgeSeconds_part002 :: rat where
  "cacheAgeSeconds_part002 = 60 * 2"

definition version_miss_part002 :: "string world \<Rightarrow> (error + response) \<times> string world" where
  "version_miss_part002 w =
     (let (slowCachedVersion, w1) = SlowKV_getString ''version'' w in
      if \<not> falsy slowCachedVersion then (Inr (ok (the slowCachedVersion)), w1)
      else
        let w2 = logged GitHubListReleases w1 in
        case github w2 of
          Inl e \<Rightarrow> (Inl e, w2)
        | Inr releases \<Rightarrow>
            if length releases = 0
            then (Inr \<lparr>status = 404, body = Text ''No releases found''\<rparr>, w2)
            else
              let filteredReleases = filter (\<lambda>release. tag_name release \<noteq> ''continuous'') releases in
              if length filteredReleases = 0
              then (Inr \<lparr>status = 404, body = Text ''No releases found (except continuous)''\<rparr>, w2)
              else
                let versionRaw = tag_name (filteredReleases ! 0);
                    latest = stripV versionRaw
                in (case APP_VERSION_put ''latest'' latest \<lparr>fetchedAt = Some (nowIso w2)\<rparr> w2 of
                      (Inl e, w3) \<Rightarrow> (Inr (ok latest), SlowKV_set ''version'' latest w3)
                    | (Inr u, w3) \<Rightarrow> (Inr (ok latest), w3)))"

definition version_part002 ::
  "(string \<Rightarrow> int option) \<Rightarrow> request \<Rightarrow> string world \<Rightarrow> (error + response) \<times> string world" where
  "version_part002 Date_parse request w =
     (let fake = searchParams request ''fake'' in
      if \<not> falsy fake then (Inr (ok (the fake)), w)
      else
        let ((cachedVersion, md), w1) = APP_VERSION_getWithMetadata ''latest'' w in
        if \<not> falsy cachedVersion then
          (case md of
             None \<Rightarrow> (Inl (TypeError ''Cannot destructure property fetchedAt of null''), w1)
           | Some m \<Rightarrow>
               if falsy (fetchedAt m) then (Inl (Error ''Metadata missing field: fetchedAt''), w1)
               else
                 let ageSeconds =
                       map_option (\<lambda>t. of_int (nowMs w1 - t) / 1000) (Date_parse (the (fetchedAt m)))
                 in if (case ageSeconds of None \<Rightarrow> False | Some age \<Rightarrow> age < cacheAgeSeconds_part002)
                    then (Inr (ok (the cachedVersion)), w1)
                    else version_miss_part002 w1)
        else version_miss_part002 w1)"

section \<open>The specification's words for one increment\<close>



section \<open>The specification's words for the sorted view, and a world for the examples\<close>

text \<open>A sequence of entries is in descending order of count when no entry has a smaller
  count than a later one.\<close>

definition descending :: "(string \<times> int) list \<Rightarrow> bool" where
  "descending entries = sorted_wrt (\<lambda>p q. snd q \<le> snd p) entries"

text \<open>The world of the examples: empty stores, a working KV namespace, GitHub without
  releases, and the clock at 10:00 UTC on 15 January 2025.\<close>

definition exampleWorld :: "Stats world" where
  "exampleWorld =
     \<lparr>APP_VERSION = Map.empty, kvPutFails = False, SlowKV = Map.empty, VotesByIP = Map.empty,
      GITHUB_TOKEN = Some ''token'', github = Inr [], nowMs = 1736935200000,
      nowIso = ''2025-01-15T10:00:00.000Z'', lastMonthIso = ''2024-12-01T00:00:00.000Z'',
      trace = []\<rparr>"

section \<open>The specification's words for the vote ledger\<close>

text \<open>
  The entries stored for a requester key, the bucket of a month and its vote count
  (an absent bucket and an absent count are 0). The UTC calendar date of a timestamp is
  the \<^verbatim>\<open>YYYY-MM-DD\<close> that starts its ISO text, its month the \<^verbatim>\<open>YYYY-MM\<close>. A requester has
  voted on a date with an identity string when one of its entries has that very string and
  that date.
\<close>

definition ledger :: "'v world \<Rightarrow> string \<Rightarrow> Votes list" where
  "ledger w ip = (case VotesByIP w ip of None \<Rightarrow> [] | Some data \<Rightarrow> data)"

definition bucket :: "Stats world \<Rightarrow> string \<Rightarrow> Stats" where
  "bucket w monthKey = (case SlowKV w monthKey of None \<Rightarrow> noStats | Some b \<Rightarrow> b)"

definition voteCount :: "Stats world \<Rightarrow> string \<Rightarrow> int" where
  "voteCount w monthKey = (case stats_votes (bucket w monthKey) of None \<Rightarrow> 0 | Some n \<Rightarrow> n)"

definition utcDate :: "string \<Rightarrow> string" where
  "utcDate stamp = take 10 stamp"

definition utcMonth :: "string \<Rightarrow> string" where
  "utcMonth stamp = take 7 stamp"

definition votedOn :: "Votes list \<Rightarrow> string \<Rightarrow> string \<Rightarrow> bool" where
  "votedOn entries identity date =
     (\<exists>e\<in>set entries. vote_userAgent e = identity \<and> utcDate (isoDateText e) = date)"

text \<open>A request that the popularity contest counts: it carries the identity string and
  the requester key, and the identity string parses to an info with some signal.\<close>

definition recognized :: "request \<Rightarrow> string \<Rightarrow> string \<Rightarrow> bool" where
  "recognized request identity ip =
     (headers_get (headers request) ''user-agent'' = Some identity \<and>
      headers_get (headers request) ''cf-connecting-ip'' = Some ip \<and> ip \<noteq> [] \<and>
      (\<exists>i. parseUserAgent identity (headers request) = Inr (Some i) \<and>
           \<not> (falsy (os i) \<and> falsy (osFamily i) \<and> falsy (appLanguage i) \<and> falsy (appVersion i))))"

text \<open>The request of the examples: the path \<^verbatim>\<open>/version\<close>, no query, and the two
  headers.\<close>

definition exampleRequest :: "string \<Rightarrow> string \<Rightarrow> request" where
  "exampleRequest identity ip =
     \<lparr>pathname = ''/version'', searchParams = Map.empty,
      headers = [''user-agent'' \<mapsto> identity, ''cf-connecting-ip'' \<mapsto> ip]\<rparr>"

section \<open>The specification's words for the version lookup\<close>

text \<open>The calls that a run has added to the trace of the world it started from.\<close>

definition callsOf :: "'v world \<Rightarrow> 'v world \<Rightarrow> event list" where
  "callsOf w w' = drop (length (trace w)) (trace w')"

text \<open>The first release that remains when those tagged \<^verbatim>\<open>continuous\<close> are skipped.\<close>

definition firstRelease :: "release list \<Rightarrow> release \<Rightarrow> bool" where
  "firstRelease releases r =
     (\<exists>skipped rest. releases = skipped @ r # rest \<and>
        (\<forall>s\<in>set skipped. tag_name s = ''continuous'') \<and> tag_name r \<noteq> ''continuous'')"

text \<open>The primary store has no valid record: it has no record, or an empty value, or a
  record with its timestamp whose age is not below the lifetime \<open>ttl\<close> (an unreadable
  timestamp has no age below anything).\<close>

definition noValidRecord :: "rat \<Rightarrow> (string \<Rightarrow> int option) \<Rightarrow> 'v world \<Rightarrow> bool" where
  "noValidRecord ttl Date_parse w =
     (APP_VERSION w ''latest'' = None \<or>
      (\<exists>e. APP_VERSION w ''latest'' = Some e \<and>
         (kv_value e = [] \<or>
          (\<exists>f. kv_metadata e = Some \<lparr>fetchedAt = Some f\<rparr> \<and> f \<noteq> [] \<and>
             (\<forall>T. Date_parse f = Some T \<longrightarrow> ttl \<le> of_int (nowMs w - T) / 1000)))))"

text \<open>For the examples: the time values of two timestamps, a world whose primary store
  holds the version 1.2.3 fetched at a given timestamp, and a world of the snapshot
  \<^verbatim>\<open>part_002\<close> whose KV namespace rejects writes.\<close>

definition exampleParse :: "string \<Rightarrow> int option" where
  "exampleParse =
     [''2025-01-15T09:58:00.000Z'' \<mapsto> 1736935080000,
      ''2025-01-15T09:50:00.000Z'' \<mapsto> 1736934600000]"

definition cachedAt :: "string \<Rightarrow> 'v world \<Rightarrow> 'v world" where
  "cachedAt stamp w =
     w\<lparr>APP_VERSION := [''latest'' \<mapsto>
          \<lparr>kv_value = ''1.2.3'', kv_metadata = Some \<lparr>fetchedAt = Some stamp\<rparr>\<rparr>]\<rparr>"

definition exampleWorld_part002 :: "string world" where
  "exampleWorld_part002 =
     \<lparr>APP_VERSION = Map.empty, kvPutFails = True, SlowKV = Map.empty, VotesByIP = Map.empty,
      GITHUB_TOKEN = None, github = Inr [\<lparr>tag_name = ''continuous''\<rparr>, \<lparr>tag_name = ''v1.2.3''\<rparr>],
      nowMs = 1736935200000,
      nowIso = ''2025-01-15T10:00:00.000Z'', lastMonthIso = ''2024-12-01T00:00:00.000Z'',
      trace = []\<rparr>"

section \<open>Properties of the string functions\<close>

lemma startsWith_iff: "startsWith s w \<longleftrightarrow> (\<exists>r. s = w @ r)"
  by (induction s w rule: startsWith.induct) auto

lemma includes_iff: "includes_js s w \<longleftrightarrow> (\<exists>p r. s = p @ w @ r)"
proof (induction s)
  case Nil
  show ?case by auto
next
  case (Cons d s)
  show ?case
  proof
    assume "includes_js (d # s) w"
    then consider "startsWith (d # s) w" | "includes_js s w" by auto
    then show "\<exists>p r. d # s = p @ w @ r"
    proof cases
      case 1
      then obtain r where "d # s = w @ r" by (auto simp: startsWith_iff)
      then have "d # s = [] @ w @ r" by simp
      then show ?thesis by blast
    next
      case 2
      then obtain p r where "s = p @ w @ r" using Cons.IH by blast
      then have "d # s = (d # p) @ w @ r" by simp
      then show ?thesis by blast
    qed
  next
    assume "\<exists>p r. d # s = p @ w @ r"
    then obtain p r where pr: "d # s = p @ w @ r" by blast
    show "includes_js (d # s) w"
    proof (cases p)
      case Nil
      with pr have "startsWith (d # s) w" by (auto simp: startsWith_iff)
      then show ?thesis by simp
    next
      case (Cons e q)
      with pr have "s = q @ w @ r" by simp
      then have "includes_js s w" using Cons.IH by blast
      then show ?thesis by simp
    qed
  qed
qed



section \<open>The OS family classification\<close>




section \<open>The structured User-Agent\<close>

lemma firstSome_SomeD: "firstSome f xs = Some y \<Longrightarrow> \<exists>x\<in>set xs. f x = Some y"
  by (induction xs) (auto split: option.splits)

lemma matchHere_groups:
  "matchHere rx s = Some (n, groups) \<Longrightarrow> length groups = length (filter (\<lambda>i. i = Group) rx)"
proof (induction rx s arbitrary: n groups rule: matchHere.induct)
  case (1 s)
  then show ?case by simp
next
  case (2 l r s)
  then show ?case by (auto split: if_splits)
next
  case (3 r s)
  from "3.prems" have "firstSome (\<lambda>k. map_option (\<lambda>(n, groups). (k + n, groups)) (matchHere r (drop k s)))
       (rev [1..<Suc (dotRun s)]) = Some (n, groups)"
    by (simp only: matchHere.simps)
  from firstSome_SomeD [OF this] obtain k where
    "map_option (\<lambda>(n, groups). (k + n, groups)) (matchHere r (drop k s)) = Some (n, groups)"
    by blast
  then obtain m where "matchHere r (drop k s) = Some (m, groups)" by auto
  then show ?case using "3.IH" by simp
next
  case (4 r s)
  from "4.prems" have "firstSome (\<lambda>k. map_option (\<lambda>(n, groups). (k + n, take k s # groups)) (matchHere r (drop k s)))
       (rev [1..<Suc (dotRun s)]) = Some (n, groups)"
    by (simp only: matchHere.simps)
  from firstSome_SomeD [OF this] obtain k where
    "map_option (\<lambda>(n, groups). (k + n, take k s # groups)) (matchHere r (drop k s)) = Some (n, groups)"
    by blast
  then obtain m gs where "matchHere r (drop k s) = Some (m, gs)" and "groups = take k s # gs" by auto
  then show ?case using "4.IH" by simp
qed

lemma rx_exec_SomeD:
  "rx_exec rx s = Some parts \<Longrightarrow>
   \<exists>i n groups. i \<le> length s \<and> matchHere rx (drop i s) = Some (n, groups) \<and> parts = take n (drop i s) # groups"
proof -
  assume "rx_exec rx s = Some parts"
  then obtain i where i: "i \<in> set [0..<Suc (length s)]"
    and m: "map_option (\<lambda>(n, groups). take n (drop i s) # groups) (matchHere rx (drop i s)) = Some parts"
    unfolding rx_exec_def by (blast dest: firstSome_SomeD)
  from m obtain n groups where "matchHere rx (drop i s) = Some (n, groups)"
    and "parts = take n (drop i s) # groups"
    by auto
  moreover from i have "i \<le> length s" by auto
  ultimately show ?thesis by blast
qed

lemma rfc9110_parts:
  assumes "rx_exec rfc9110 s = Some parts"
  shows "length parts = 3"
proof -
  from assms obtain i n groups where "matchHere rfc9110 (drop i s) = Some (n, groups)"
    and "parts = take n (drop i s) # groups"
    by (auto dest!: rx_exec_SomeD)
  then show ?thesis using matchHere_groups [of rfc9110 "drop i s" n groups]
    by (simp add: rfc9110_def)
qed

lemma rfc9110_marker:
  assumes "rx_test rfc9110 s"
  shows "includes_js s ''Deskflow''"
proof -
  from assms obtain parts where "rx_exec rfc9110 s = Some parts"
    by (auto simp: rx_test_def)
  then obtain i n groups where "matchHere rfc9110 (drop i s) = Some (n, groups)"
    by (auto dest!: rx_exec_SomeD)
  then have "startsWith (drop i s) ''Deskflow/''"
    by (auto simp: rfc9110_def split: if_splits)
  then obtain r where "drop i s = ''Deskflow/'' @ r"
    by (auto simp: startsWith_iff)
  then have "s = take i s @ ''Deskflow'' @ (''/'' @ r)"
    by (metis append_take_drop_id append_Cons append_Nil)
  then show ?thesis unfolding includes_iff by blast
qed

lemma parseUserAgent_no_error: "parseUserAgent userAgent hs \<noteq> Inl e"
  unfolding parseUserAgent_def rx_test_def
  by (auto simp: Let_def split: option.splits)

text \<open>
  Claim C6, as the code has it. An identity string that matches the structured pattern
  never makes \<open>parseUserAgent\<close> raise an error: the match has its two groups, the second one
  is split at every \<open>;\<close> and trimmed, and the result takes the fields by position, \<open>null\<close>
  where the segment has no field at that position (the family is the one of the field at
  position 1). A segment with fewer than four fields gives a partial result.
\<close>

theorem parseUserAgent_structured:
  assumes "rx_test rfc9110 userAgent"
  shows "\<exists>parts. rx_exec rfc9110 userAgent = Some parts \<and> length parts = 3 \<and>
           parseUserAgent userAgent hs =
             (let fields = map trim (split_js CHR '';'' (parts ! 2))
              in Inr (Some \<lparr>os = nth_or_null fields 0,
                             osFamily = getOsFamily (nth_or_null fields 1),
                             appLanguage = nth_or_null fields 3,
                             appVersion = nth_or_null fields 2\<rparr>))"
proof -
  from assms obtain parts where parts: "rx_exec rfc9110 userAgent = Some parts"
    by (auto simp: rx_test_def)
  have "length parts = 3" using parts by (rule rfc9110_parts)
  moreover have "includes_js userAgent ''Deskflow''" using assms by (rule rfc9110_marker)
  ultimately show ?thesis using assms parts
    by (simp add: parseUserAgent_def)
qed

theorem parseUserAgent_structured_witness:
  "rx_test rfc9110 ''Deskflow/1 (A; Linux; 2; en)'' \<and>
   (\<exists>parts. rx_exec rfc9110 ''Deskflow/1 (A; Linux; 2; en)'' = Some parts \<and> length parts = 3 \<and>
      parseUserAgent ''Deskflow/1 (A; Linux; 2; en)'' Map.empty =
        (let fields = map trim (split_js CHR '';'' (parts ! 2))
         in Inr (Some \<lparr>os = nth_or_null fields 0,
                        osFamily = getOsFamily (nth_or_null fields 1),
                        appLanguage = nth_or_null fields 3,
                        appVersion = nth_or_null fields 2\<rparr>))) \<and>
   parseUserAgent ''Deskflow/1 (A; Linux; 2; en)'' Map.empty =
     Inr (Some \<lparr>os = Some ''A'', osFamily = Some ''Linux'',
                  appLanguage = Some ''en'', appVersion = Some ''2''\<rparr>)"
proof (intro conjI)
  show matches: "rx_test rfc9110 ''Deskflow/1 (A; Linux; 2; en)''"
    by code_simp
  show "\<exists>parts. rx_exec rfc9110 ''Deskflow/1 (A; Linux; 2; en)'' = Some parts \<and> length parts = 3 \<and>
      parseUserAgent ''Deskflow/1 (A; Linux; 2; en)'' Map.empty =
        (let fields = map trim (split_js CHR '';'' (parts ! 2))
         in Inr (Some \<lparr>os = nth_or_null fields 0,
                        osFamily = getOsFamily (nth_or_null fields 1),
                        appLanguage = nth_or_null fields 3,
                        appVersion = nth_or_null fields 2\<rparr>))"
    by (rule parseUserAgent_structured [OF matches])
  show "parseUserAgent ''Deskflow/1 (A; Linux; 2; en)'' Map.empty =
     Inr (Some \<lparr>os = Some ''A'', osFamily = Some ''Linux'',
                  appLanguage = Some ''en'', appVersion = Some ''2''\<rparr>)"
    by code_simp
qed

text \<open>
  Claim C6 as stated fails: the identity string \<^verbatim>\<open>Deskflow/1.0 (Linux)\<close> matches the
  structured pattern, its segment has one field where four are expected, and the parse
  returns a partial result instead of raising an error.
\<close>

theorem parseUserAgent_partial_counterexample:
  "rx_test rfc9110 ''Deskflow/1.0 (Linux)'' \<and>
   rx_exec rfc9110 ''Deskflow/1.0 (Linux)'' = Some [''Deskflow/1.0 (Linux)'', ''1.0'', ''Linux''] \<and>
   split_js CHR '';'' ''Linux'' = [''Linux''] \<and>
   parseUserAgent ''Deskflow/1.0 (Linux)'' Map.empty =
     Inr (Some \<lparr>os = Some ''Linux'', osFamily = None, appLanguage = None, appVersion = None\<rparr>)"
  by code_simp

section \<open>One increment of the bucket\<close>








section \<open>The sorted view of a category\<close>

lemma Object_entries_plain:
  assumes "\<forall>p\<in>set obj. \<not> isArrayIndex (fst p)"
  shows "Object_entries obj = obj"
proof -
  have "filter (\<lambda>(k, v). isArrayIndex k) obj = []"
    using assms by (auto simp: filter_empty_conv)
  moreover have "filter (\<lambda>(k, v). \<not> isArrayIndex k) obj = obj"
    using assms by (auto simp: filter_id_conv)
  ultimately show ?thesis by (simp add: Object_entries_def)
qed

lemma obj_set_fresh: "k \<notin> fst ` set obj \<Longrightarrow> obj_set obj k v = obj @ [(k, v)]"
  by (induction obj k v rule: obj_set.induct) auto

lemma fold_obj_set_distinct:
  "distinct (map fst (acc @ es)) \<Longrightarrow> fold (\<lambda>(k, v) obj. obj_set obj k v) es acc = acc @ es"
proof (induction es arbitrary: acc)
  case Nil
  show ?case by simp
next
  case (Cons e es)
  obtain k v where e: "e = (k, v)" by (cases e)
  from Cons.prems e have fresh: "k \<notin> fst ` set acc" by auto
  from Cons.prems e have "distinct (map fst ((acc @ [(k, v)]) @ es))" by simp
  from Cons.IH [OF this] show ?case using e fresh by (simp add: obj_set_fresh)
qed

lemma Object_fromEntries_distinct: "distinct (map fst es) \<Longrightarrow> Object_fromEntries es = es"
  using fold_obj_set_distinct [of "[]" es] by (simp add: Object_fromEntries_def)

lemma Array_sort_Cons: "Array_sort cmp (x # xs) = insertBy cmp x (Array_sort cmp xs)"
  by (simp add: Array_sort_def)

lemma set_insertBy: "set (insertBy cmp x ys) = insert x (set ys)"
  by (induction ys) auto

lemma set_Array_sort: "set (Array_sort cmp xs) = set xs"
  by (induction xs) (auto simp: Array_sort_def set_insertBy)

lemma distinct_insertBy:
  "distinct (map fst (insertBy cmp x ys)) \<longleftrightarrow> fst x \<notin> fst ` set ys \<and> distinct (map fst ys)"
  by (induction ys) (auto simp: set_insertBy)

lemma distinct_Array_sort: "distinct (map fst (Array_sort cmp xs)) \<longleftrightarrow> distinct (map fst xs)"
proof (induction xs)
  case Nil
  show ?case by (simp add: Array_sort_def)
next
  case (Cons x xs)
  then show ?case by (simp add: Array_sort_Cons distinct_insertBy set_Array_sort)
qed

lemma byValue: "(\<lambda>(_, a) (_, b). b - a) = (\<lambda>p q. snd q - snd (p :: string \<times> int))"
  by (auto simp: fun_eq_iff)

lemma descending_insertBy:
  "descending ys \<Longrightarrow> descending (insertBy (\<lambda>p q. snd q - snd p) x ys)"
  unfolding descending_def
  by (induction ys) (auto simp: set_insertBy)

lemma descending_Array_sort: "descending (Array_sort (\<lambda>p q. snd q - snd p) xs)"
proof (induction xs)
  case Nil
  show ?case by (simp add: Array_sort_def descending_def)
next
  case (Cons x xs)
  then show ?case by (simp add: Array_sort_Cons descending_insertBy)
qed

lemma filter_insertBy:
  "filter (\<lambda>p. snd p = c) (insertBy (\<lambda>p q. snd q - snd p) x ys) =
     (if snd x = c then x # filter (\<lambda>p. snd p = c) ys else filter (\<lambda>p. snd p = c) ys)"
  by (induction ys) auto

lemma stable_Array_sort:
  "filter (\<lambda>p. snd p = c) (Array_sort (\<lambda>p q. snd q - snd p) xs) = filter (\<lambda>p. snd p = c) xs"
proof (induction xs)
  case Nil
  show ?case by (simp add: Array_sort_def)
next
  case (Cons x xs)
  then show ?case by (simp add: Array_sort_Cons filter_insertBy)
qed

lemma sortByValueDesc_plain:
  assumes "distinct (map fst obj)" and "\<forall>p\<in>set obj. \<not> isArrayIndex (fst p)"
  shows "Object_entries (sortByValueDesc obj) = Array_sort (\<lambda>p q. snd q - snd p) obj"
proof -
  let ?sorted = "Array_sort (\<lambda>p q. snd q - snd p) obj"
  have "sortByValueDesc obj = Object_fromEntries ?sorted"
    using assms(2) by (simp add: sortByValueDesc_def Object_entries_plain byValue)
  also have "\<dots> = ?sorted"
    using assms(1) by (simp add: Object_fromEntries_distinct distinct_Array_sort)
  finally have "sortByValueDesc obj = ?sorted" .
  moreover have "\<forall>p\<in>set ?sorted. \<not> isArrayIndex (fst p)"
    using assms(2) by (simp add: set_Array_sort)
  ultimately show ?thesis by (simp add: Object_entries_plain)
qed

lemma sortByValueDesc_plain_sorted:
  assumes "distinct (map fst obj)" and "\<forall>p\<in>set obj. \<not> isArrayIndex (fst p)"
  shows "descending (Object_entries (sortByValueDesc obj))"
    and "filter (\<lambda>p. snd p = c) (Object_entries (sortByValueDesc obj)) = filter (\<lambda>p. snd p = c) obj"
    and "set (Object_entries (sortByValueDesc obj)) = set obj"
  using assms
  by (simp_all add: sortByValueDesc_plain descending_Array_sort stable_Array_sort set_Array_sort)

lemma sortByValueDesc_example:
  "Object_entries (sortByValueDesc [(''A'', 3), (''B'', 5), (''C'', 5)]) = [(''B'', 5), (''C'', 5), (''A'', 3)]"
  by code_simp

text \<open>
  Claim C8. For a category whose keys are not array indices the sorted view is in
  descending order of count and stable (\<open>sortByValueDesc_plain_sorted\<close> above, and the
  specification's example \<open>sortByValueDesc_example\<close>). The code misses the claim on keys that
  are array indices: JavaScript enumerates them first and in ascending numeric order,
  whatever the order in which \<^verbatim>\<open>Object.fromEntries\<close> created them. A bucket whose versions
  are "2", counted 5 times, and "1", counted 3 times, is read back as 1: 3, 2: 5, which is
  not descending.
\<close>

theorem getSortedStats_index_keys:
  "Object_entries (sortByValueDesc [(''2'', 5), (''1'', 3)]) = [(''1'', 3), (''2'', 5)] \<and>
   \<not> descending [(''1'', 3), (''2'', 5)] \<and>
   map_option Object_entries
     (stats_version (fst (getSortedStats ''2025-01''
        (exampleWorld\<lparr>SlowKV := [''2025-01'' \<mapsto> noStats\<lparr>stats_version := Some [(''2'', 5), (''1'', 3)]\<rparr>]\<rparr>))))
     = Some [(''1'', 3), (''2'', 5)]"
  by code_simp

section \<open>The popularity contest: one vote a day\<close>

lemma hasVoted_votedOn: "hasVoted data identity w = votedOn data identity (utcDate (nowIso w))"
  by (auto simp: hasVoted_def votedOn_def utcDate_def list_ex_iff)

lemma parse_nonempty: "parseUserAgent identity hs = Inr (Some i) \<Longrightarrow> identity \<noteq> []"
  by (auto simp: parseUserAgent_def split: if_splits)

lemma updatePopularityContest_recognized:
  assumes "recognized request identity ip"
  shows "updatePopularityContest request w =
     (if votedOn (ledger w ip) identity (utcDate (nowIso w))
      then (Inr (), logged (FindVotes ip) w)
      else (Inr (),
            recordVote (ledger w ip) ip identity
              (SlowKV_set (utcMonth (nowIso w))
                (incrementStats (the (projr (parseUserAgent identity (headers request))))
                   (bucket w (utcMonth (nowIso w))))
                (logged (SlowKVGet (utcMonth (nowIso w))) (logged (FindVotes ip) w)))))"
proof -
  from assms obtain i where ua: "headers_get (headers request) ''user-agent'' = Some identity"
    and ip: "headers_get (headers request) ''cf-connecting-ip'' = Some ip" "ip \<noteq> []"
    and i: "parseUserAgent identity (headers request) = Inr (Some i)"
    and signal: "\<not> (falsy (os i) \<and> falsy (osFamily i) \<and> falsy (appLanguage i) \<and> falsy (appVersion i))"
    unfolding recognized_def by blast
  from i have ne: "identity \<noteq> []" by (rule parse_nonempty)
  have fv: "findVotes ip w = (ledger w ip, logged (FindVotes ip) w)"
    by (simp add: findVotes_def ledger_def)
  have clock: "nowIso (logged e w) = nowIso w" for e
    by (simp add: logged_def)
  have gs: "SlowKV_getStats k (logged e w) = (bucket w k, logged (SlowKVGet k) (logged e w))" for k e
    by (simp add: SlowKV_getStats_def bucket_def logged_def)
  have truthy: "\<not> falsy (Some identity)" "\<not> falsy (Some ip)"
    using ne ip by (simp_all add: falsy_def)
  have some: "(falsy (os i) \<and> falsy (osFamily i) \<and> falsy (appLanguage i) \<and> falsy (appVersion i)) = False"
    using signal by simp
  show ?thesis
    by (simp add: updatePopularityContest_def ua ip i truthy some fv gs clock hasVoted_votedOn
        utcMonth_def Let_def)
qed

lemma utcMonth_utcDate: "utcDate a = utcDate b \<Longrightarrow> utcMonth a = utcMonth b"
proof -
  assume "utcDate a = utcDate b"
  then have "take 7 (take 10 a) = take 7 (take 10 b)" by (simp add: utcDate_def)
  then show ?thesis by (simp add: utcMonth_def)
qed

lemma stores_at: "ledger (w\<lparr>nowIso := stamp\<rparr>) ip = ledger w ip"
  "bucket (w\<lparr>nowIso := stamp\<rparr>) m = bucket w m"
  "voteCount (w\<lparr>nowIso := stamp\<rparr>) m = voteCount w m"
  by (simp_all add: ledger_def bucket_def voteCount_def)

lemma stores_logged: "SlowKV (logged e w) = SlowKV w" "VotesByIP (logged e w) = VotesByIP w"
  "nowIso (logged e w) = nowIso w"
  by (simp_all add: logged_def)

lemma counted_stores:
  "SlowKV (recordVote entries ip identity (SlowKV_set m b w)) = (SlowKV w)(m \<mapsto> b)"
  "VotesByIP (recordVote entries ip identity (SlowKV_set m b w)) =
     (VotesByIP w)(ip \<mapsto> entries @ [\<lparr>isoDateText = nowIso w, vote_userAgent = identity\<rparr>])"
  by (simp_all add: recordVote_def SlowKV_set_def logged_def Let_def)

lemma voteCount_incrementStats:
  assumes "SlowKV w' = (SlowKV w)(m \<mapsto> incrementStats i (bucket w m))"
  shows "voteCount w' m = voteCount w m + 1"
  using assms by (simp add: voteCount_def bucket_def incrementStats_def split: option.splits)

lemma votedOn_append:
  "votedOn (entries @ [\<lparr>isoDateText = stamp, vote_userAgent = identity'\<rparr>]) identity date \<longleftrightarrow>
     votedOn entries identity date \<or> (identity' = identity \<and> utcDate stamp = date)"
  by (auto simp: votedOn_def)

lemma first_vote:
  assumes "recognized request identity ip"
    and "\<not> votedOn (ledger w ip) identity (utcDate (nowIso w))"
  shows "voteCount (snd (updatePopularityContest request w)) (utcMonth (nowIso w)) =
           voteCount w (utcMonth (nowIso w)) + 1"
    and "ledger (snd (updatePopularityContest request w)) ip =
           ledger w ip @ [\<lparr>isoDateText = nowIso w, vote_userAgent = identity\<rparr>]"
proof -
  let ?w1 = "snd (updatePopularityContest request w)"
  let ?m = "utcMonth (nowIso w)"
  let ?i = "the (projr (parseUserAgent identity (headers request)))"
  have w1: "?w1 = recordVote (ledger w ip) ip identity
              (SlowKV_set ?m (incrementStats ?i (bucket w ?m))
                (logged (SlowKVGet ?m) (logged (FindVotes ip) w)))"
    using assms by (simp add: updatePopularityContest_recognized)
  have "SlowKV ?w1 = (SlowKV w)(?m \<mapsto> incrementStats ?i (bucket w ?m))"
    unfolding w1 by (simp add: counted_stores stores_logged)
  then show "voteCount ?w1 ?m = voteCount w ?m + 1"
    by (rule voteCount_incrementStats)
  have "VotesByIP ?w1 = (VotesByIP w)(ip \<mapsto> ledger w ip @ [\<lparr>isoDateText = nowIso w, vote_userAgent = identity\<rparr>])"
    unfolding w1 by (simp add: counted_stores stores_logged)
  then show "ledger ?w1 ip = ledger w ip @ [\<lparr>isoDateText = nowIso w, vote_userAgent = identity\<rparr>]"
    by (simp add: ledger_def)
qed

lemma repeated_vote:
  assumes "recognized request identity ip"
    and "votedOn (ledger w ip) identity (utcDate (nowIso w))"
  shows "updatePopularityContest request w = (Inr (), logged (FindVotes ip) w)"
  using assms by (simp add: updatePopularityContest_recognized)

lemma example_identities:
  "parseUserAgent ''Deskflow/1 (A; Linux; 2; en)'' hs =
     Inr (Some \<lparr>os = Some ''A'', osFamily = Some ''Linux'', appLanguage = Some ''en'', appVersion = Some ''2''\<rparr>)"
  "parseUserAgent ''Deskflow/1 (B; Linux; 2; en)'' hs =
     Inr (Some \<lparr>os = Some ''B'', osFamily = Some ''Linux'', appLanguage = Some ''en'', appVersion = Some ''2''\<rparr>)"
  by code_simp+

lemma example_headers:
  "headers_get (headers (exampleRequest identity ip)) ''user-agent'' = Some identity"
  "headers_get (headers (exampleRequest identity ip)) ''cf-connecting-ip'' = Some ip"
  "headers_get (headers (exampleRequest identity ip)) ''X-Deskflow-Language'' = None"
  "headers_get (headers (exampleRequest identity ip)) ''X-Deskflow-Version'' = None"
  by (simp_all add: headers_get_def exampleRequest_def toLowerCase_def lowerChar_def)

lemma example_recognized:
  "recognized (exampleRequest ''Deskflow/1 (A; Linux; 2; en)'' ''10.0.0.1'') ''Deskflow/1 (A; Linux; 2; en)'' ''10.0.0.1''"
  "recognized (exampleRequest ''Deskflow/1 (B; Linux; 2; en)'' ''10.0.0.1'') ''Deskflow/1 (B; Linux; 2; en)'' ''10.0.0.1''"
  by (simp_all add: recognized_def example_headers example_identities falsy_def)

lemma example_ledger: "\<not> votedOn (ledger exampleWorld ip) identity date"
  by (simp add: votedOn_def ledger_def exampleWorld_def)

text \<open>
  Claim C2. Let a recognized request come from a requester that has not voted today with
  its identity string. The first invocation raises the vote count of the month by one. A
  second invocation with the same key and the same identity string, at an instant of the
  same UTC date, only reads the ledger: the stores of the statistics and of the votes are
  as the first invocation left them, so the two invocations together count one vote. A
  recognized request with another identity string from the same key, on the same date, is
  counted: the count is two more than at the start. The first request again, at an instant
  of another date (the next day) for which the ledger has no entry, is counted again in
  the month of that date.
\<close>

theorem vote_once_a_day:
  assumes "recognized request identity ip"
    and "recognized request' identity' ip"
    and "identity' \<noteq> identity"
    and "\<not> votedOn (ledger w ip) identity (utcDate (nowIso w))"
    and "\<not> votedOn (ledger w ip) identity' (utcDate (nowIso w))"
    and "utcDate again = utcDate (nowIso w)"
    and "utcDate tomorrow \<noteq> utcDate (nowIso w)"
    and "\<not> votedOn (ledger w ip) identity (utcDate tomorrow)"
  shows "let w1 = snd (updatePopularityContest request w);
             w2 = snd (updatePopularityContest request (w1\<lparr>nowIso := again\<rparr>));
             w2' = snd (updatePopularityContest request' (w1\<lparr>nowIso := again\<rparr>));
             w3 = snd (updatePopularityContest request (w1\<lparr>nowIso := tomorrow\<rparr>))
         in voteCount w1 (utcMonth (nowIso w)) = voteCount w (utcMonth (nowIso w)) + 1 \<and>
            updatePopularityContest request (w1\<lparr>nowIso := again\<rparr>) =
              (Inr (), logged (FindVotes ip) (w1\<lparr>nowIso := again\<rparr>)) \<and>
            SlowKV w2 = SlowKV w1 \<and> VotesByIP w2 = VotesByIP w1 \<and>
            voteCount w2 (utcMonth (nowIso w)) = voteCount w (utcMonth (nowIso w)) + 1 \<and>
            voteCount w2' (utcMonth (nowIso w)) = voteCount w (utcMonth (nowIso w)) + 2 \<and>
            voteCount w3 (utcMonth tomorrow) = voteCount w1 (utcMonth tomorrow) + 1"
proof -
  define w1 where "w1 = snd (updatePopularityContest request w)"
  define m where "m = utcMonth (nowIso w)"
  have month: "utcMonth again = m"
    using assms(6) unfolding m_def by (rule utcMonth_utcDate)
  have count1: "voteCount w1 m = voteCount w m + 1"
    unfolding w1_def m_def using assms(1,4) by (rule first_vote)
  have ledger1: "ledger w1 ip = ledger w ip @ [\<lparr>isoDateText = nowIso w, vote_userAgent = identity\<rparr>]"
    unfolding w1_def using assms(1,4) by (rule first_vote)
  have "votedOn (ledger (w1\<lparr>nowIso := again\<rparr>) ip) identity (utcDate (nowIso (w1\<lparr>nowIso := again\<rparr>)))"
    using assms(6) by (simp add: stores_at ledger1 votedOn_append)
  with assms(1) have second: "updatePopularityContest request (w1\<lparr>nowIso := again\<rparr>) =
      (Inr (), logged (FindVotes ip) (w1\<lparr>nowIso := again\<rparr>))"
    by (rule repeated_vote)
  have same: "SlowKV (snd (updatePopularityContest request (w1\<lparr>nowIso := again\<rparr>))) = SlowKV w1"
    "VotesByIP (snd (updatePopularityContest request (w1\<lparr>nowIso := again\<rparr>))) = VotesByIP w1"
    by (simp_all add: second logged_def)
  then have count2: "voteCount (snd (updatePopularityContest request (w1\<lparr>nowIso := again\<rparr>))) m = voteCount w1 m"
    by (simp add: voteCount_def bucket_def)
  have "\<not> votedOn (ledger (w1\<lparr>nowIso := again\<rparr>) ip) identity' (utcDate (nowIso (w1\<lparr>nowIso := again\<rparr>)))"
    using assms(3,5,6) by (simp add: stores_at ledger1 votedOn_append)
  with assms(2) have "voteCount (snd (updatePopularityContest request' (w1\<lparr>nowIso := again\<rparr>)))
        (utcMonth (nowIso (w1\<lparr>nowIso := again\<rparr>))) =
      voteCount (w1\<lparr>nowIso := again\<rparr>) (utcMonth (nowIso (w1\<lparr>nowIso := again\<rparr>))) + 1"
    by (rule first_vote)
  then have count2': "voteCount (snd (updatePopularityContest request' (w1\<lparr>nowIso := again\<rparr>))) m = voteCount w1 m + 1"
    by (simp add: stores_at month)
  have "\<not> votedOn (ledger (w1\<lparr>nowIso := tomorrow\<rparr>) ip) identity (utcDate (nowIso (w1\<lparr>nowIso := tomorrow\<rparr>)))"
    using assms(7,8) by (auto simp: stores_at ledger1 votedOn_append)
  with assms(1) have "voteCount (snd (updatePopularityContest request (w1\<lparr>nowIso := tomorrow\<rparr>)))
        (utcMonth (nowIso (w1\<lparr>nowIso := tomorrow\<rparr>))) =
      voteCount (w1\<lparr>nowIso := tomorrow\<rparr>) (utcMonth (nowIso (w1\<lparr>nowIso := tomorrow\<rparr>))) + 1"
    by (rule first_vote)
  then have count3: "voteCount (snd (updatePopularityContest request (w1\<lparr>nowIso := tomorrow\<rparr>))) (utcMonth tomorrow) =
      voteCount w1 (utcMonth tomorrow) + 1"
    by (simp add: stores_at)
  show ?thesis
    using count1 second same count2 count2' count3
    unfolding Let_def w1_def [symmetric] m_def [symmetric]
    by simp
qed


theorem vote_once_a_day_witness:
  "recognized (exampleRequest ''Deskflow/1 (A; Linux; 2; en)'' ''10.0.0.1'') ''Deskflow/1 (A; Linux; 2; en)'' ''10.0.0.1'' \<and>
   recognized (exampleRequest ''Deskflow/1 (B; Linux; 2; en)'' ''10.0.0.1'') ''Deskflow/1 (B; Linux; 2; en)'' ''10.0.0.1'' \<and>
   utcDate ''2025-01-15T18:30:00.000Z'' = utcDate (nowIso exampleWorld) \<and>
   utcDate ''2025-01-16T09:00:00.000Z'' \<noteq> utcDate (nowIso exampleWorld) \<and>
   voteCount exampleWorld (utcMonth (nowIso exampleWorld)) = 0 \<and>
   (let w1 = snd (updatePopularityContest (exampleRequest ''Deskflow/1 (A; Linux; 2; en)'' ''10.0.0.1'') exampleWorld);
        w2 = snd (updatePopularityContest (exampleRequest ''Deskflow/1 (A; Linux; 2; en)'' ''10.0.0.1'')
                    (w1\<lparr>nowIso := ''2025-01-15T18:30:00.000Z''\<rparr>));
        w2' = snd (updatePopularityContest (exampleRequest ''Deskflow/1 (B; Linux; 2; en)'' ''10.0.0.1'')
                    (w1\<lparr>nowIso := ''2025-01-15T18:30:00.000Z''\<rparr>));
        w3 = snd (updatePopularityContest (exampleRequest ''Deskflow/1 (A; Linux; 2; en)'' ''10.0.0.1'')
                    (w1\<lparr>nowIso := ''2025-01-16T09:00:00.000Z''\<rparr>))
    in voteCount w1 (utcMonth (nowIso exampleWorld)) = voteCount exampleWorld (utcMonth (nowIso exampleWorld)) + 1 \<and>
       updatePopularityContest (exampleRequest ''Deskflow/1 (A; Linux; 2; en)'' ''10.0.0.1'')
           (w1\<lparr>nowIso := ''2025-01-15T18:30:00.000Z''\<rparr>) =
         (Inr (), logged (FindVotes ''10.0.0.1'') (w1\<lparr>nowIso := ''2025-01-15T18:30:00.000Z''\<rparr>)) \<and>
       SlowKV w2 = SlowKV w1 \<and> VotesByIP w2 = VotesByIP w1 \<and>
       voteCount w2 (utcMonth (nowIso exampleWorld)) = voteCount exampleWorld (utcMonth (nowIso exampleWorld)) + 1 \<and>
       voteCount w2' (utcMonth (nowIso exampleWorld)) = voteCount exampleWorld (utcMonth (nowIso exampleWorld)) + 2 \<and>
       voteCount w3 (utcMonth ''2025-01-16T09:00:00.000Z'') = voteCount w1 (utcMonth ''2025-01-16T09:00:00.000Z'') + 1)"
proof (intro conjI)
  show same: "utcDate ''2025-01-15T18:30:00.000Z'' = utcDate (nowIso exampleWorld)"
    by (simp add: utcDate_def exampleWorld_def)
  show other: "utcDate ''2025-01-16T09:00:00.000Z'' \<noteq> utcDate (nowIso exampleWorld)"
    by (simp add: utcDate_def exampleWorld_def)
  show "voteCount exampleWorld (utcMonth (nowIso exampleWorld)) = 0"
    by (simp add: voteCount_def bucket_def exampleWorld_def noStats_def)
  have different: "''Deskflow/1 (B; Linux; 2; en)'' \<noteq> ''Deskflow/1 (A; Linux; 2; en)''" by simp
  show "(let w1 = snd (updatePopularityContest (exampleRequest ''Deskflow/1 (A; Linux; 2; en)'' ''10.0.0.1'') exampleWorld);
          w2 = snd (updatePopularityContest (exampleRequest ''Deskflow/1 (A; Linux; 2; en)'' ''10.0.0.1'')
                      (w1\<lparr>nowIso := ''2025-01-15T18:30:00.000Z''\<rparr>));
          w2' = snd (updatePopularityContest (exampleRequest ''Deskflow/1 (B; Linux; 2; en)'' ''10.0.0.1'')
                      (w1\<lparr>nowIso := ''2025-01-15T18:30:00.000Z''\<rparr>));
          w3 = snd (updatePopularityContest (exampleRequest ''Deskflow/1 (A; Linux; 2; en)'' ''10.0.0.1'')
                      (w1\<lparr>nowIso := ''2025-01-16T09:00:00.000Z''\<rparr>))
      in voteCount w1 (utcMonth (nowIso exampleWorld)) = voteCount exampleWorld (utcMonth (nowIso exampleWorld)) + 1 \<and>
         updatePopularityContest (exampleRequest ''Deskflow/1 (A; Linux; 2; en)'' ''10.0.0.1'')
             (w1\<lparr>nowIso := ''2025-01-15T18:30:00.000Z''\<rparr>) =
           (Inr (), logged (FindVotes ''10.0.0.1'') (w1\<lparr>nowIso := ''2025-01-15T18:30:00.000Z''\<rparr>)) \<and>
         SlowKV w2 = SlowKV w1 \<and> VotesByIP w2 = VotesByIP w1 \<and>
         voteCount w2 (utcMonth (nowIso exampleWorld)) = voteCount exampleWorld (utcMonth (nowIso exampleWorld)) + 1 \<and>
         voteCount w2' (utcMonth (nowIso exampleWorld)) = voteCount exampleWorld (utcMonth (nowIso exampleWorld)) + 2 \<and>
         voteCount w3 (utcMonth ''2025-01-16T09:00:00.000Z'') = voteCount w1 (utcMonth ''2025-01-16T09:00:00.000Z'') + 1)"
    by (rule vote_once_a_day [OF example_recognized(1) example_recognized(2) different
          example_ledger example_ledger same other example_ledger])
qed (rule example_recognized)+

text \<open>
  Claim C10. A request whose identity string contains the marker \<^verbatim>\<open>Deskflow\<close>, matches
  neither the structured pattern nor the legacy pattern \<^verbatim>\<open>Deskflow .+ on (.+)\<close>, and comes
  without the headers \<^verbatim>\<open>X-Deskflow-Language\<close> and \<^verbatim>\<open>X-Deskflow-Version\<close>: the parse returns
  the info whose four fields are \<open>null\<close>, and the update returns without an error and
  leaves the world as it is, the trace of the calls to the stores included: it has read
  and written neither the ledger nor the statistics.
\<close>

theorem updatePopularityContest_no_signal:
  assumes "headers_get (headers request) ''user-agent'' = Some identity"
    and "includes_js identity ''Deskflow''"
    and "\<not> rx_test rfc9110 identity"
    and "rx_exec legacyOs identity = None"
    and "headers_get (headers request) ''X-Deskflow-Language'' = None"
    and "headers_get (headers request) ''X-Deskflow-Version'' = None"
  shows "parseUserAgent identity (headers request) =
           Inr (Some \<lparr>os = None, osFamily = None, appLanguage = None, appVersion = None\<rparr>) \<and>
         updatePopularityContest request w = (Inr (), w)"
proof -
  have family: "getOsFamily None = None" by (simp add: getOsFamily_def)
  have parse: "parseUserAgent identity (headers request) =
           Inr (Some \<lparr>os = None, osFamily = None, appLanguage = None, appVersion = None\<rparr>)"
    using assms by (simp add: parseUserAgent_def family)
  from assms(2) have "identity \<noteq> []" by auto
  then show ?thesis using parse assms(1)
    by (simp add: updatePopularityContest_def falsy_def)
qed


theorem updatePopularityContest_no_signal_witness:
  "headers_get (headers (exampleRequest ''Deskflow'' ''10.0.0.1'')) ''user-agent'' = Some ''Deskflow'' \<and>
   includes_js ''Deskflow'' ''Deskflow'' \<and>
   \<not> rx_test rfc9110 ''Deskflow'' \<and>
   rx_exec legacyOs ''Deskflow'' = None \<and>
   parseUserAgent ''Deskflow'' (headers (exampleRequest ''Deskflow'' ''10.0.0.1'')) =
     Inr (Some \<lparr>os = None, osFamily = None, appLanguage = None, appVersion = None\<rparr>) \<and>
   updatePopularityContest (exampleRequest ''Deskflow'' ''10.0.0.1'') exampleWorld = (Inr (), exampleWorld)"
proof -
  have a: "includes_js ''Deskflow'' ''Deskflow''" by code_simp
  have b: "\<not> rx_test rfc9110 ''Deskflow''" by code_simp
  have c: "rx_exec legacyOs ''Deskflow'' = None" by code_simp
  from updatePopularityContest_no_signal [OF example_headers(1) a b c example_headers(3) example_headers(4)]
  show ?thesis using a b c by (simp add: example_headers)
qed

section \<open>The version lookup: the cache and its lifetime\<close>

lemma falsy_simps: "falsy None" "falsy (Some s) \<longleftrightarrow> s = []"
  by (simp_all add: falsy_def)

lemma getWithMetadata_present:
  "APP_VERSION w key = Some e \<Longrightarrow>
   APP_VERSION_getWithMetadata key w = ((Some (kv_value e), kv_metadata e), logged (KVGet key) w)"
  by (simp add: APP_VERSION_getWithMetadata_def)

lemma getWithMetadata_absent:
  "APP_VERSION w key = None \<Longrightarrow>
   APP_VERSION_getWithMetadata key w = ((None, None), logged (KVGet key) w)"
  by (simp add: APP_VERSION_getWithMetadata_def)

lemma logged_fields:
  "APP_VERSION (logged e w) = APP_VERSION w" "kvPutFails (logged e w) = kvPutFails w"
  "GITHUB_TOKEN (logged e w) = GITHUB_TOKEN w" "github (logged e w) = github w"
  "nowMs (logged e w) = nowMs w" "trace (logged e w) = trace w @ [e]"
  by (simp_all add: logged_def)

lemma version_fresh:
  assumes "falsy (searchParams request ''fake'')"
    and "APP_VERSION w ''latest'' = Some \<lparr>kv_value = v, kv_metadata = Some \<lparr>fetchedAt = Some f\<rparr>\<rparr>"
    and "v \<noteq> []" and "f \<noteq> []"
    and "Date_parse f = Some T"
  shows "version Date_parse request w =
     (if of_int (nowMs w - T) / 1000 < cacheAgeSeconds
      then (Inr (ok v), logged (KVGet ''latest'') w)
      else version_miss (logged (KVGet ''latest'') w))"
proof -
  have truthy: "\<not> falsy (Some v)" "\<not> falsy (Some f)"
    using assms(3,4) by (simp_all add: falsy_def)
  show ?thesis
    using assms(1,5)
    by (simp add: version_def getWithMetadata_present [OF assms(2)] truthy logged_fields Let_def)
qed

lemma filter_firstRelease:
  assumes "firstRelease releases r"
  shows "\<exists>rest. filter (\<lambda>release. tag_name release \<noteq> ''continuous'') releases = r # rest"
proof -
  from assms obtain skipped rest where "releases = skipped @ r # rest"
    and "\<forall>s\<in>set skipped. tag_name s = ''continuous''" and "tag_name r \<noteq> ''continuous''"
    unfolding firstRelease_def by blast
  then have "filter (\<lambda>release. tag_name release \<noteq> ''continuous'') releases =
      r # filter (\<lambda>release. tag_name release \<noteq> ''continuous'') rest"
    by (simp add: filter_empty_conv)
  then show ?thesis by blast
qed

lemma version_miss_calls_github:
  assumes "\<not> falsy (GITHUB_TOKEN w)"
  shows "GitHubListReleases \<in> set (callsOf w (snd (version_miss w)))"
  using assms
  by (auto simp: version_miss_def callsOf_def logged_def APP_VERSION_put_def Let_def
      split: sum.splits prod.splits if_splits)

lemma callsOf_logged: "set (callsOf (logged e w) w') \<subseteq> set (callsOf w w')"
  unfolding callsOf_def
  by (simp add: logged_def set_drop_subset_set_drop)

lemma callsOf_one: "callsOf w (logged e w) = [e]"
  by (simp add: callsOf_def logged_def)

lemma example_fake: "falsy (searchParams (exampleRequest identity ip) ''fake'')"
  by (simp add: exampleRequest_def falsy_def)

lemma example_firstRelease:
  "firstRelease [\<lparr>tag_name = ''continuous''\<rparr>, \<lparr>tag_name = v\<rparr>] \<lparr>tag_name = v\<rparr> \<longleftrightarrow> v \<noteq> ''continuous''"
proof
  assume "v \<noteq> ''continuous''"
  then have "[\<lparr>tag_name = ''continuous''\<rparr>, \<lparr>tag_name = v\<rparr>] = [\<lparr>tag_name = ''continuous''\<rparr>] @ \<lparr>tag_name = v\<rparr> # [] \<and>
    (\<forall>s\<in>set [\<lparr>tag_name = ''continuous''\<rparr>]. tag_name s = ''continuous'') \<and> tag_name \<lparr>tag_name = v\<rparr> \<noteq> ''continuous''"
    by simp
  then show "firstRelease [\<lparr>tag_name = ''continuous''\<rparr>, \<lparr>tag_name = v\<rparr>] \<lparr>tag_name = v\<rparr>"
    unfolding firstRelease_def by blast
next
  assume "firstRelease [\<lparr>tag_name = ''continuous''\<rparr>, \<lparr>tag_name = v\<rparr>] \<lparr>tag_name = v\<rparr>"
  then show "v \<noteq> ''continuous''" by (auto simp: firstRelease_def)
qed

text \<open>
  Claim C3. The lifetime of the cache is the constant 300 seconds. For a lookup that
  reaches the cache (no \<^verbatim>\<open>fake\<close> in the query) and finds a record with a value and a
  timestamp whose time value is \<open>T\<close>, in milliseconds: when \<open>(nowMs - T) / 1000\<close> is below
  the lifetime, the cached value is the answer and the only call made is the read of the
  cache; otherwise the lookup continues as on a miss, and, the GitHub token being
  configured, GitHub is asked for the releases.
\<close>

theorem version_cache_ttl:
  assumes "falsy (searchParams request ''fake'')"
    and "APP_VERSION w ''latest'' = Some \<lparr>kv_value = v, kv_metadata = Some \<lparr>fetchedAt = Some f\<rparr>\<rparr>"
    and "v \<noteq> []" and "f \<noteq> []"
    and "Date_parse f = Some T"
  shows "cacheAgeSeconds = 300 \<and>
    (of_int (nowMs w - T) / 1000 < cacheAgeSeconds \<longrightarrow>
       version Date_parse request w = (Inr (ok v), logged (KVGet ''latest'') w) \<and>
       callsOf w (snd (version Date_parse request w)) = [KVGet ''latest'']) \<and>
    (cacheAgeSeconds \<le> of_int (nowMs w - T) / 1000 \<longrightarrow>
       version Date_parse request w = version_miss (logged (KVGet ''latest'') w) \<and>
       (\<not> falsy (GITHUB_TOKEN w) \<longrightarrow>
          GitHubListReleases \<in> set (callsOf w (snd (version Date_parse request w)))))"
proof (intro conjI impI)
  show "cacheAgeSeconds = 300" by (simp add: cacheAgeSeconds_def)
next
  assume "of_int (nowMs w - T) / 1000 < cacheAgeSeconds"
  then show hit: "version Date_parse request w = (Inr (ok v), logged (KVGet ''latest'') w)"
    using version_fresh [where Date_parse = Date_parse and f = f, OF assms] by simp
  show "callsOf w (snd (version Date_parse request w)) = [KVGet ''latest'']"
    by (simp add: hit callsOf_one)
next
  assume "cacheAgeSeconds \<le> of_int (nowMs w - T) / 1000"
  then show stale: "version Date_parse request w = version_miss (logged (KVGet ''latest'') w)"
    using version_fresh [where Date_parse = Date_parse and f = f, OF assms] by simp
  assume "\<not> falsy (GITHUB_TOKEN w)"
  then have "\<not> falsy (GITHUB_TOKEN (logged (KVGet ''latest'') w))"
    by (simp add: logged_fields)
  then have "GitHubListReleases \<in> set (callsOf (logged (KVGet ''latest'') w)
      (snd (version_miss (logged (KVGet ''latest'') w))))"
    by (rule version_miss_calls_github)
  then show "GitHubListReleases \<in> set (callsOf w (snd (version Date_parse request w)))"
    unfolding stale using callsOf_logged by blast
qed

theorem version_cache_ttl_witness:
  "rat_of_int (nowMs (cachedAt ''2025-01-15T09:58:00.000Z'' exampleWorld) - 1736935080000) / 1000 < cacheAgeSeconds \<and>
   version exampleParse (exampleRequest ''Deskflow'' ''10.0.0.1'') (cachedAt ''2025-01-15T09:58:00.000Z'' exampleWorld) =
     (Inr (ok ''1.2.3''), logged (KVGet ''latest'') (cachedAt ''2025-01-15T09:58:00.000Z'' exampleWorld)) \<and>
   cacheAgeSeconds \<le> rat_of_int (nowMs (cachedAt ''2025-01-15T09:50:00.000Z'' exampleWorld) - 1736934600000) / 1000 \<and>
   GitHubListReleases \<in> set (callsOf (cachedAt ''2025-01-15T09:50:00.000Z'' exampleWorld)
     (snd (version exampleParse (exampleRequest ''Deskflow'' ''10.0.0.1'') (cachedAt ''2025-01-15T09:50:00.000Z'' exampleWorld))))"
proof -
  have fake: "falsy (searchParams (exampleRequest ''Deskflow'' ''10.0.0.1'') ''fake'')"
    by (simp add: exampleRequest_def falsy_def)
  have kv: "APP_VERSION (cachedAt stamp exampleWorld) ''latest'' =
      Some \<lparr>kv_value = ''1.2.3'', kv_metadata = Some \<lparr>fetchedAt = Some stamp\<rparr>\<rparr>" for stamp
    by (simp add: cachedAt_def)
  have parse: "exampleParse ''2025-01-15T09:58:00.000Z'' = Some 1736935080000"
    "exampleParse ''2025-01-15T09:50:00.000Z'' = Some 1736934600000"
    by (simp_all add: exampleParse_def)
  have fresh: "rat_of_int (nowMs (cachedAt ''2025-01-15T09:58:00.000Z'' exampleWorld) - 1736935080000) / 1000 < cacheAgeSeconds"
    by (simp add: cachedAt_def exampleWorld_def cacheAgeSeconds_def)
  have stale: "cacheAgeSeconds \<le> rat_of_int (nowMs (cachedAt ''2025-01-15T09:50:00.000Z'' exampleWorld) - 1736934600000) / 1000"
    by (simp add: cachedAt_def exampleWorld_def cacheAgeSeconds_def)
  have token: "\<not> falsy (GITHUB_TOKEN (cachedAt ''2025-01-15T09:50:00.000Z'' exampleWorld))"
    by (simp add: cachedAt_def exampleWorld_def falsy_def)
  note hit = version_cache_ttl [where Date_parse = exampleParse and f = "''2025-01-15T09:58:00.000Z''",
      OF fake kv _ _ parse(1)]
  note miss = version_cache_ttl [where Date_parse = exampleParse and f = "''2025-01-15T09:50:00.000Z''",
      OF fake kv _ _ parse(2)]
  from hit fresh have "version exampleParse (exampleRequest ''Deskflow'' ''10.0.0.1'') (cachedAt ''2025-01-15T09:58:00.000Z'' exampleWorld) =
     (Inr (ok ''1.2.3''), logged (KVGet ''latest'') (cachedAt ''2025-01-15T09:58:00.000Z'' exampleWorld))"
    by blast
  moreover from miss stale token have "GitHubListReleases \<in> set (callsOf (cachedAt ''2025-01-15T09:50:00.000Z'' exampleWorld)
     (snd (version exampleParse (exampleRequest ''Deskflow'' ''10.0.0.1'') (cachedAt ''2025-01-15T09:50:00.000Z'' exampleWorld))))"
    by blast
  ultimately show ?thesis using fresh stale by blast
qed

section \<open>The version lookup: the releases\<close>

lemma version_no_record:
  assumes "falsy (searchParams request ''fake'')" and "APP_VERSION w ''latest'' = None"
  shows "version Date_parse request w = version_miss (logged (KVGet ''latest'') w)"
  using assms by (simp add: version_def getWithMetadata_absent falsy_simps)

text \<open>
  Claim C4. After a miss, with the token configured and GitHub answering a sequence of
  releases: the empty sequence gives the answer 404 \<^verbatim>\<open>No releases found\<close>; a sequence of
  releases all tagged \<^verbatim>\<open>continuous\<close> gives the other answer 404
  \<^verbatim>\<open>No releases found (except continuous)\<close>; otherwise the first release that remains
  when the releases tagged \<^verbatim>\<open>continuous\<close> are skipped gives the answer, its tag without
  one leading \<^verbatim>\<open>v\<close>, once the cache has accepted the write (claim C1 is about a write
  that fails). Stripping removes exactly one leading lower-case \<^verbatim>\<open>v\<close> and nothing else.
\<close>

theorem version_miss_releases:
  assumes "\<not> falsy (GITHUB_TOKEN w)" and "github w = Inr releases"
  shows "(releases = [] \<longrightarrow>
            version_miss w =
              (Inr \<lparr>status = 404, body = Text ''No releases found''\<rparr>, logged GitHubListReleases w)) \<and>
         (releases \<noteq> [] \<and> (\<forall>r\<in>set releases. tag_name r = ''continuous'') \<longrightarrow>
            version_miss w =
              (Inr \<lparr>status = 404, body = Text ''No releases found (except continuous)''\<rparr>,
               logged GitHubListReleases w)) \<and>
         (\<forall>r. firstRelease releases r \<and> \<not> kvPutFails w \<longrightarrow>
            fst (version_miss w) = Inr (ok (stripV (tag_name r))) \<and>
            APP_VERSION (snd (version_miss w)) ''latest'' =
              Some \<lparr>kv_value = stripV (tag_name r), kv_metadata = Some \<lparr>fetchedAt = Some (nowIso w)\<rparr>\<rparr>) \<and>
         (\<forall>rest. stripV (CHR ''v'' # rest) = rest) \<and>
         (\<forall>c rest. c \<noteq> CHR ''v'' \<longrightarrow> stripV (c # rest) = c # rest) \<and> stripV [] = []"
proof (intro conjI allI impI)
  assume "releases = []"
  then show "version_miss w =
      (Inr \<lparr>status = 404, body = Text ''No releases found''\<rparr>, logged GitHubListReleases w)"
    using assms by (simp add: version_miss_def logged_fields)
next
  assume "releases \<noteq> [] \<and> (\<forall>r\<in>set releases. tag_name r = ''continuous'')"
  then have "releases \<noteq> []" and "filter (\<lambda>release. tag_name release \<noteq> ''continuous'') releases = []"
    by (simp_all add: filter_empty_conv)
  then show "version_miss w =
      (Inr \<lparr>status = 404, body = Text ''No releases found (except continuous)''\<rparr>,
       logged GitHubListReleases w)"
    using assms by (simp add: version_miss_def logged_fields)
next
  fix r
  assume r: "firstRelease releases r \<and> \<not> kvPutFails w"
  then obtain rest where kept: "filter (\<lambda>release. tag_name release \<noteq> ''continuous'') releases = r # rest"
    using filter_firstRelease by blast
  then have "releases \<noteq> []" by auto
  then have miss: "version_miss w =
      (Inr (ok (stripV (tag_name r))),
       logged (KVPut ''latest'')
         ((logged GitHubListReleases w)\<lparr>APP_VERSION := (APP_VERSION w)(''latest'' \<mapsto>
            \<lparr>kv_value = stripV (tag_name r), kv_metadata = Some \<lparr>fetchedAt = Some (nowIso w)\<rparr>\<rparr>)\<rparr>))"
    using assms r kept
    by (simp add: version_miss_def logged_fields APP_VERSION_put_def Let_def logged_def)
  show "fst (version_miss w) = Inr (ok (stripV (tag_name r)))"
    by (simp add: miss)
  show "APP_VERSION (snd (version_miss w)) ''latest'' =
      Some \<lparr>kv_value = stripV (tag_name r), kv_metadata = Some \<lparr>fetchedAt = Some (nowIso w)\<rparr>\<rparr>"
    by (simp add: miss logged_def)
next
  fix rest show "stripV (CHR ''v'' # rest) = rest" by (simp add: stripV_def)
next
  fix c rest assume "c \<noteq> CHR ''v''"
  then show "stripV (c # rest) = c # rest" by (simp add: stripV_def)
next
  show "stripV [] = []" by (simp add: stripV_def)
qed

theorem version_miss_releases_witness:
  "version_miss (exampleWorld\<lparr>github := Inr []\<rparr>) =
     (Inr \<lparr>status = 404, body = Text ''No releases found''\<rparr>,
      logged GitHubListReleases (exampleWorld\<lparr>github := Inr []\<rparr>)) \<and>
   version_miss (exampleWorld\<lparr>github := Inr [\<lparr>tag_name = ''continuous''\<rparr>]\<rparr>) =
     (Inr \<lparr>status = 404, body = Text ''No releases found (except continuous)''\<rparr>,
      logged GitHubListReleases (exampleWorld\<lparr>github := Inr [\<lparr>tag_name = ''continuous''\<rparr>]\<rparr>)) \<and>
   firstRelease [\<lparr>tag_name = ''continuous''\<rparr>, \<lparr>tag_name = ''v2.0.0''\<rparr>] \<lparr>tag_name = ''v2.0.0''\<rparr> \<and>
   \<not> kvPutFails (exampleWorld\<lparr>github := Inr [\<lparr>tag_name = ''continuous''\<rparr>, \<lparr>tag_name = ''v2.0.0''\<rparr>]\<rparr>) \<and>
   fst (version_miss (exampleWorld\<lparr>github := Inr [\<lparr>tag_name = ''continuous''\<rparr>, \<lparr>tag_name = ''v2.0.0''\<rparr>]\<rparr>)) =
     Inr (ok ''2.0.0'') \<and>
   stripV ''vv1'' = ''v1'' \<and> stripV ''1.2.3'' = ''1.2.3''"
proof -
  have token: "\<not> falsy (GITHUB_TOKEN (exampleWorld\<lparr>github := g\<rparr>))" for g
    by (simp add: exampleWorld_def falsy_def)
  have gh: "github (exampleWorld\<lparr>github := g\<rparr>) = g" for g
    by simp
  have first: "firstRelease [\<lparr>tag_name = ''continuous''\<rparr>, \<lparr>tag_name = ''v2.0.0''\<rparr>] \<lparr>tag_name = ''v2.0.0''\<rparr>"
    by (simp add: example_firstRelease)
  have works: "\<not> kvPutFails (exampleWorld\<lparr>github := g\<rparr>)" for g
    by (simp add: exampleWorld_def)
  have strip: "stripV (tag_name \<lparr>tag_name = ''v2.0.0''\<rparr>) = ''2.0.0''"
    by (simp add: stripV_def)
  note none = version_miss_releases [where w = "exampleWorld\<lparr>github := Inr []\<rparr>", OF token gh]
  note only = version_miss_releases [where w = "exampleWorld\<lparr>github := Inr [\<lparr>tag_name = ''continuous''\<rparr>]\<rparr>",
      OF token gh]
  note some = version_miss_releases [where
      w = "exampleWorld\<lparr>github := Inr [\<lparr>tag_name = ''continuous''\<rparr>, \<lparr>tag_name = ''v2.0.0''\<rparr>]\<rparr>",
      OF token gh]
  from none have 1: "version_miss (exampleWorld\<lparr>github := Inr []\<rparr>) =
     (Inr \<lparr>status = 404, body = Text ''No releases found''\<rparr>,
      logged GitHubListReleases (exampleWorld\<lparr>github := Inr []\<rparr>))"
    by simp
  from only have 2: "version_miss (exampleWorld\<lparr>github := Inr [\<lparr>tag_name = ''continuous''\<rparr>]\<rparr>) =
     (Inr \<lparr>status = 404, body = Text ''No releases found (except continuous)''\<rparr>,
      logged GitHubListReleases (exampleWorld\<lparr>github := Inr [\<lparr>tag_name = ''continuous''\<rparr>]\<rparr>))"
    by simp
  have "firstRelease [\<lparr>tag_name = ''continuous''\<rparr>, \<lparr>tag_name = ''v2.0.0''\<rparr>] \<lparr>tag_name = ''v2.0.0''\<rparr> \<and>
      \<not> kvPutFails (exampleWorld\<lparr>github := Inr [\<lparr>tag_name = ''continuous''\<rparr>, \<lparr>tag_name = ''v2.0.0''\<rparr>]\<rparr>)"
    by (rule conjI, rule first, rule works)
  note some [THEN conjunct2, THEN conjunct2, THEN conjunct1, THEN spec, THEN mp, OF this]
  then have "fst (version_miss (exampleWorld\<lparr>github := Inr [\<lparr>tag_name = ''continuous''\<rparr>, \<lparr>tag_name = ''v2.0.0''\<rparr>]\<rparr>)) =
     Inr (ok (stripV (tag_name \<lparr>tag_name = ''v2.0.0''\<rparr>)))"
    by (rule conjunct1)
  then have 3: "fst (version_miss (exampleWorld\<lparr>github := Inr [\<lparr>tag_name = ''continuous''\<rparr>, \<lparr>tag_name = ''v2.0.0''\<rparr>]\<rparr>)) =
     Inr (ok ''2.0.0'')"
    by (simp only: strip)
  have 4: "stripV ''vv1'' = ''v1''" "stripV ''1.2.3'' = ''1.2.3''"
    by (simp_all add: stripV_def)
  show ?thesis by (intro conjI) (rule 1 2 first works 3 4)+
qed

section \<open>The version lookup: a record without its timestamp\<close>

lemma updatePopularityContest_APP_VERSION:
  "APP_VERSION (snd (updatePopularityContest request w)) = APP_VERSION w"
  by (auto simp: updatePopularityContest_def findVotes_def SlowKV_getStats_def SlowKV_set_def
      recordVote_def logged_def Let_def split: sum.splits option.splits prod.splits if_splits)

text \<open>
  Claim C7. For a request to \<^verbatim>\<open>/version\<close> that reaches the cache (no \<^verbatim>\<open>fake\<close> in the
  query) and finds a record with a value whose metadata is \<open>null\<close>, or has no
  \<^verbatim>\<open>fetchedAt\<close>, or an empty one: \<open>version\<close> raises an error, and \<open>fetch\<close> answers with
  the status 500 and the message that carries the request identifier, the header
  \<^verbatim>\<open>cf-ray\<close> or \<^verbatim>\<open>unknown\<close>.
\<close>

theorem version_metadata_missing:
  assumes "falsy (searchParams request ''fake'')"
    and "APP_VERSION w ''latest'' = Some e" and "kv_value e \<noteq> []"
    and "kv_metadata e = None \<or> (\<exists>m. kv_metadata e = Some m \<and> falsy (fetchedAt m))"
    and "startsWith (pathname request) ''/version''"
  shows "(\<exists>err. version Date_parse request w = (Inl err, logged (KVGet ''latest'') w)) \<and>
         fst (fetch Date_parse request w) =
           serverError (case headers_get (headers request) ''cf-ray'' of
                          None \<Rightarrow> ''unknown'' | Some ray \<Rightarrow> ray) \<and>
         status (fst (fetch Date_parse request w)) = 500 \<and>
         (\<exists>before after. body (fst (fetch Date_parse request w)) =
            Text (before @ (case headers_get (headers request) ''cf-ray'' of
                              None \<Rightarrow> ''unknown'' | Some ray \<Rightarrow> ray) @ after))"
proof -
  have raised: "\<exists>err. version Date_parse request w' = (Inl err, logged (KVGet ''latest'') w')"
    if "APP_VERSION w' ''latest'' = Some e" for w' :: "Stats world"
  proof -
    have "\<not> falsy (Some (kv_value e))" using assms(3) by (simp add: falsy_def)
    then show ?thesis
      using assms(1,4)
      by (auto simp: version_def getWithMetadata_present [OF that] Let_def)
  qed
  define w1 where "w1 = snd (updatePopularityContest request w)"
  have "APP_VERSION w1 ''latest'' = Some e"
    unfolding w1_def using assms(2) by (simp add: updatePopularityContest_APP_VERSION)
  then obtain err where v1: "version Date_parse request w1 = (Inl err, logged (KVGet ''latest'') w1)"
    using raised by blast
  from assms(5) have path: "pathname request \<noteq> ''/''"
    by (auto simp: startsWith_iff)
  have "handleRequest Date_parse request w = version Date_parse request w1"
    using assms(5) path
    by (simp add: handleRequest_def w1_def split: prod.splits)
  then have f: "fetch Date_parse request w =
      (serverError (case headers_get (headers request) ''cf-ray'' of
                      None \<Rightarrow> ''unknown'' | Some ray \<Rightarrow> ray), logged (KVGet ''latest'') w1)"
    by (simp add: fetch_def v1)
  have "\<exists>before after. body (serverError rid) = Text (before @ rid @ after)" for rid
    unfolding serverError_def by (metis response.select_convs(2))
  with f raised [OF assms(2)] show ?thesis
    by (simp add: serverError_def)
qed

theorem version_metadata_missing_witness:
  "falsy (searchParams (exampleRequest ''Deskflow'' ''10.0.0.1'') ''fake'') \<and>
   APP_VERSION (exampleWorld\<lparr>APP_VERSION := [''latest'' \<mapsto> \<lparr>kv_value = ''1.2.3'', kv_metadata = None\<rparr>]\<rparr>) ''latest'' =
     Some \<lparr>kv_value = ''1.2.3'', kv_metadata = None\<rparr> \<and>
   startsWith (pathname (exampleRequest ''Deskflow'' ''10.0.0.1'')) ''/version'' \<and>
   fst (fetch exampleParse (exampleRequest ''Deskflow'' ''10.0.0.1'')
         (exampleWorld\<lparr>APP_VERSION := [''latest'' \<mapsto> \<lparr>kv_value = ''1.2.3'', kv_metadata = None\<rparr>]\<rparr>)) =
     serverError ''unknown'' \<and>
   status (fst (fetch exampleParse (exampleRequest ''Deskflow'' ''10.0.0.1'')
         (exampleWorld\<lparr>APP_VERSION := [''latest'' \<mapsto> \<lparr>kv_value = ''1.2.3'', kv_metadata = None\<rparr>]\<rparr>))) = 500"
proof -
  have kv: "APP_VERSION (exampleWorld\<lparr>APP_VERSION := [''latest'' \<mapsto> \<lparr>kv_value = ''1.2.3'', kv_metadata = None\<rparr>]\<rparr>) ''latest'' =
     Some \<lparr>kv_value = ''1.2.3'', kv_metadata = None\<rparr>"
    by simp
  have val: "kv_value \<lparr>kv_value = ''1.2.3'', kv_metadata = None\<rparr> \<noteq> []" by simp
  have md: "kv_metadata \<lparr>kv_value = ''1.2.3'', kv_metadata = None\<rparr> = None \<or>
     (\<exists>m. kv_metadata \<lparr>kv_value = ''1.2.3'', kv_metadata = None\<rparr> = Some m \<and> falsy (fetchedAt m))"
    by simp
  have path: "startsWith (pathname (exampleRequest ''Deskflow'' ''10.0.0.1'')) ''/version''"
    by (simp add: exampleRequest_def)
  have ray: "headers_get (headers (exampleRequest ''Deskflow'' ''10.0.0.1'')) ''cf-ray'' = None"
    by (simp add: headers_get_def exampleRequest_def toLowerCase_def lowerChar_def)
  note raised = version_metadata_missing [where Date_parse = exampleParse, OF example_fake kv val md path]
  have "fst (fetch exampleParse (exampleRequest ''Deskflow'' ''10.0.0.1'')
         (exampleWorld\<lparr>APP_VERSION := [''latest'' \<mapsto> \<lparr>kv_value = ''1.2.3'', kv_metadata = None\<rparr>]\<rparr>)) =
     serverError (case headers_get (headers (exampleRequest ''Deskflow'' ''10.0.0.1'')) ''cf-ray'' of
                    None \<Rightarrow> ''unknown'' | Some ray \<Rightarrow> ray)"
    by (rule raised [THEN conjunct2, THEN conjunct1])
  then have answer: "fst (fetch exampleParse (exampleRequest ''Deskflow'' ''10.0.0.1'')
         (exampleWorld\<lparr>APP_VERSION := [''latest'' \<mapsto> \<lparr>kv_value = ''1.2.3'', kv_metadata = None\<rparr>]\<rparr>)) =
     serverError ''unknown''"
    by (simp only: ray option.case)
  have code: "status (fst (fetch exampleParse (exampleRequest ''Deskflow'' ''10.0.0.1'')
         (exampleWorld\<lparr>APP_VERSION := [''latest'' \<mapsto> \<lparr>kv_value = ''1.2.3'', kv_metadata = None\<rparr>]\<rparr>))) = 500"
    by (rule raised [THEN conjunct2, THEN conjunct2, THEN conjunct1])
  show ?thesis by (intro conjI) (rule example_fake kv path answer code)+
qed

section \<open>The version lookup: a write of the cache that fails\<close>

lemma version_part002_miss:
  assumes "falsy (searchParams request ''fake'')"
    and "noValidRecord cacheAgeSeconds_part002 Date_parse w"
  shows "version_part002 Date_parse request w = version_miss_part002 (logged (KVGet ''latest'') w)"
proof -
  from assms(2) consider
      (absent) "APP_VERSION w ''latest'' = None"
    | (empty) e where "APP_VERSION w ''latest'' = Some e" "kv_value e = []"
    | (stale) e f where "APP_VERSION w ''latest'' = Some e" "kv_value e \<noteq> []"
        "kv_metadata e = Some \<lparr>fetchedAt = Some f\<rparr>" "f \<noteq> []"
        "\<forall>T. Date_parse f = Some T \<longrightarrow> cacheAgeSeconds_part002 \<le> of_int (nowMs w - T) / 1000"
    unfolding noValidRecord_def by auto
  then show ?thesis
  proof cases
    case absent
    then show ?thesis using assms(1)
      by (simp add: version_part002_def getWithMetadata_absent falsy_simps)
  next
    case empty
    then show ?thesis using assms(1)
      by (simp add: version_part002_def getWithMetadata_present falsy_simps)
  next
    case stale
    have "\<not> falsy (Some (kv_value e))" "\<not> falsy (Some f)"
      using stale(2,4) by (simp_all add: falsy_def)
    then show ?thesis using assms(1) stale(3,5)
      by (cases "Date_parse f")
         (simp_all add: version_part002_def getWithMetadata_present [OF stale(1)] logged_fields Let_def)
  qed
qed

lemma version_miss_part002_slow:
  assumes "SlowKV w ''version'' = Some v" and "v \<noteq> []"
  shows "version_miss_part002 w = (Inr (ok v), logged (SlowKVGet ''version'') w)"
  using assms by (simp add: version_miss_part002_def SlowKV_getString_def falsy_def)

lemma version_miss_part002_put_fails:
  assumes "falsy (SlowKV w ''version'')" and "github w = Inr releases"
    and "firstRelease releases r" and "kvPutFails w"
  shows "version_miss_part002 w =
     (Inr (ok (stripV (tag_name r))),
      SlowKV_set ''version'' (stripV (tag_name r))
        (logged (KVPut ''latest'') (logged GitHubListReleases (logged (SlowKVGet ''version'') w))))"
proof -
  from assms(3) obtain rest where
    kept: "filter (\<lambda>release. tag_name release \<noteq> ''continuous'') releases = r # rest"
    using filter_firstRelease by blast
  then have "releases \<noteq> []" by auto
  then show ?thesis
    using assms(1,2,4) kept
    by (simp add: version_miss_part002_def SlowKV_getString_def APP_VERSION_put_def logged_def Let_def)
qed

lemma version_miss_put_fails:
  assumes "\<not> falsy (GITHUB_TOKEN w)" and "github w = Inr releases"
    and "firstRelease releases r" and "kvPutFails w"
  shows "version_miss w =
     (Inl (Error ''KV put failed''), logged (KVPut ''latest'') (logged GitHubListReleases w))"
proof -
  from assms(3) obtain rest where
    kept: "filter (\<lambda>release. tag_name release \<noteq> ''continuous'') releases = r # rest"
    using filter_firstRelease by blast
  then have "releases \<noteq> []" by auto
  then show ?thesis
    using assms(1,2,4) kept
    by (simp add: version_miss_def APP_VERSION_put_def logged_def Let_def)
qed

lemma version_miss_trace:
  "\<exists>cs. trace (snd (version_miss u)) = trace u @ cs \<and> set cs \<subseteq> {GitHubListReleases, KVPut ''latest''}"
  by (auto simp: version_miss_def APP_VERSION_put_def logged_def Let_def
      split: sum.splits if_splits)

lemma version_trace:
  "\<exists>cs. trace (snd (version Date_parse request u)) = trace u @ cs \<and>
        set cs \<subseteq> {KVGet ''latest'', GitHubListReleases, KVPut ''latest''}"
proof -
  define u1 where "u1 = logged (KVGet ''latest'') u"
  have u1: "trace u1 = trace u @ [KVGet ''latest'']"
    by (simp add: u1_def logged_def)
  have get: "snd (APP_VERSION_getWithMetadata ''latest'' u) = u1"
    by (simp add: APP_VERSION_getWithMetadata_def u1_def)
  from version_miss_trace [of u1] obtain cs where
    "trace (snd (version_miss u1)) = trace u @ (KVGet ''latest'' # cs)"
    and "set cs \<subseteq> {GitHubListReleases, KVPut ''latest''}"
    using u1 by auto
  then have miss: "\<exists>cs. trace (snd (version_miss u1)) = trace u @ cs \<and>
        set cs \<subseteq> {KVGet ''latest'', GitHubListReleases, KVPut ''latest''}"
    by (intro exI [of _ "KVGet ''latest'' # cs"]) auto
  have stop: "\<exists>cs. trace u1 = trace u @ cs \<and>
        set cs \<subseteq> {KVGet ''latest'', GitHubListReleases, KVPut ''latest''}"
    using u1 by simp
  have none: "\<exists>cs. trace u = trace u @ cs \<and>
        set cs \<subseteq> {KVGet ''latest'', GitHubListReleases, KVPut ''latest''}"
    by simp
  have "snd (version Date_parse request u) \<in> {u, u1, snd (version_miss u1)}"
    using get
    by (auto simp: version_def Let_def split: prod.splits option.splits)
  then show ?thesis using miss stop none by auto
qed

lemma version_calls:
  "set (callsOf u (snd (version Date_parse request u))) \<subseteq>
     {KVGet ''latest'', GitHubListReleases, KVPut ''latest''}"
  using version_trace [of Date_parse request u] by (auto simp: callsOf_def)

text \<open>
  Claim C1, as the code has it. In the snapshot \<^verbatim>\<open>part_002\<close>: when the write of the cache
  fails after a miss, the failure is caught, the same value is written to the slow store
  under \<^verbatim>\<open>version\<close>, the primary store is as before, and the caller gets the value; and a
  lookup that finds no valid record in the primary store and a non-empty value in the
  slow store answers that value, whatever the clock says, after reading the two stores
  and nothing else. In the last snapshot \<^verbatim>\<open>part_004\<close> there is no fallback: when the
  write of the cache fails, the error goes to the caller, the slow store is as before, and
  no lookup ever calls the slow store.
\<close>

theorem version_fallback:
  "(falsy (SlowKV w ''version'') \<and> github w = Inr releases \<and> firstRelease releases r \<and> kvPutFails w
      \<longrightarrow> fst (version_miss_part002 w) = Inr (ok (stripV (tag_name r))) \<and>
           SlowKV (snd (version_miss_part002 w)) ''version'' = Some (stripV (tag_name r)) \<and>
           APP_VERSION (snd (version_miss_part002 w)) = APP_VERSION w) \<and>
   (falsy (searchParams request ''fake'') \<and> noValidRecord cacheAgeSeconds_part002 Date_parse w' \<and>
    SlowKV w' ''version'' = Some v \<and> v \<noteq> []
      \<longrightarrow> version_part002 Date_parse request w' =
             (Inr (ok v), logged (SlowKVGet ''version'') (logged (KVGet ''latest'') w')) \<and>
           callsOf w' (snd (version_part002 Date_parse request w')) =
             [KVGet ''latest'', SlowKVGet ''version'']) \<and>
   (\<not> falsy (GITHUB_TOKEN u) \<and> github u = Inr releases \<and> firstRelease releases r \<and> kvPutFails u
      \<longrightarrow> fst (version_miss u) = Inl (Error ''KV put failed'') \<and>
           SlowKV (snd (version_miss u)) = SlowKV u \<and>
           callsOf u (snd (version_miss u)) = [GitHubListReleases, KVPut ''latest'']) \<and>
   set (callsOf u' (snd (version Date_parse' request' u'))) \<subseteq>
     {KVGet ''latest'', GitHubListReleases, KVPut ''latest''}"
proof (intro conjI impI)
  assume a: "falsy (SlowKV w ''version'') \<and> github w = Inr releases \<and> firstRelease releases r \<and> kvPutFails w"
  then have a1: "falsy (SlowKV w ''version'')" and a2: "github w = Inr releases"
    and a3: "firstRelease releases r" and a4: "kvPutFails w"
    by simp_all
  have m: "version_miss_part002 w =
     (Inr (ok (stripV (tag_name r))),
      SlowKV_set ''version'' (stripV (tag_name r))
        (logged (KVPut ''latest'') (logged GitHubListReleases (logged (SlowKVGet ''version'') w))))"
    by (rule version_miss_part002_put_fails [OF a1 a2 a3 a4])
  show "fst (version_miss_part002 w) = Inr (ok (stripV (tag_name r)))"
    by (simp add: m)
  show "SlowKV (snd (version_miss_part002 w)) ''version'' = Some (stripV (tag_name r))"
    by (simp add: m SlowKV_set_def logged_def)
  show "APP_VERSION (snd (version_miss_part002 w)) = APP_VERSION w"
    by (simp add: m SlowKV_set_def logged_def)
next
  assume b: "falsy (searchParams request ''fake'') \<and> noValidRecord cacheAgeSeconds_part002 Date_parse w' \<and>
    SlowKV w' ''version'' = Some v \<and> v \<noteq> []"
  then have "version_part002 Date_parse request w' = version_miss_part002 (logged (KVGet ''latest'') w')"
    by (simp add: version_part002_miss)
  moreover have "SlowKV (logged (KVGet ''latest'') w') ''version'' = Some v"
    using b by (simp add: logged_def)
  ultimately show served: "version_part002 Date_parse request w' =
      (Inr (ok v), logged (SlowKVGet ''version'') (logged (KVGet ''latest'') w'))"
    using b by (simp add: version_miss_part002_slow)
  show "callsOf w' (snd (version_part002 Date_parse request w')) = [KVGet ''latest'', SlowKVGet ''version'']"
    by (simp add: served callsOf_def logged_def)
next
  assume c: "\<not> falsy (GITHUB_TOKEN u) \<and> github u = Inr releases \<and> firstRelease releases r \<and> kvPutFails u"
  then have c1: "\<not> falsy (GITHUB_TOKEN u)" and c2: "github u = Inr releases"
    and c3: "firstRelease releases r" and c4: "kvPutFails u"
    by simp_all
  have m: "version_miss u =
     (Inl (Error ''KV put failed''), logged (KVPut ''latest'') (logged GitHubListReleases u))"
    by (rule version_miss_put_fails [OF c1 c2 c3 c4])
  show "fst (version_miss u) = Inl (Error ''KV put failed'')" by (simp add: m)
  show "SlowKV (snd (version_miss u)) = SlowKV u" by (simp add: m logged_def)
  show "callsOf u (snd (version_miss u)) = [GitHubListReleases, KVPut ''latest'']"
    by (simp add: m callsOf_def logged_def)
next
  show "set (callsOf u' (snd (version Date_parse' request' u'))) \<subseteq>
     {KVGet ''latest'', GitHubListReleases, KVPut ''latest''}"
    by (rule version_calls)
qed

theorem version_fallback_witness:
  "falsy (SlowKV exampleWorld_part002 ''version'') \<and>
   github exampleWorld_part002 = Inr [\<lparr>tag_name = ''continuous''\<rparr>, \<lparr>tag_name = ''v1.2.3''\<rparr>] \<and>
   firstRelease [\<lparr>tag_name = ''continuous''\<rparr>, \<lparr>tag_name = ''v1.2.3''\<rparr>] \<lparr>tag_name = ''v1.2.3''\<rparr> \<and>
   kvPutFails exampleWorld_part002 \<and>
   fst (version_miss_part002 exampleWorld_part002) = Inr (ok ''1.2.3'') \<and>
   SlowKV (snd (version_miss_part002 exampleWorld_part002)) ''version'' = Some ''1.2.3'' \<and>
   noValidRecord cacheAgeSeconds_part002 exampleParse (snd (version_miss_part002 exampleWorld_part002)) \<and>
   fst (version_part002 exampleParse (exampleRequest ''Deskflow'' ''10.0.0.1'')
          (snd (version_miss_part002 exampleWorld_part002))) = Inr (ok ''1.2.3'') \<and>
   \<not> falsy (GITHUB_TOKEN (exampleWorld\<lparr>kvPutFails := True, github := Inr [\<lparr>tag_name = ''continuous''\<rparr>, \<lparr>tag_name = ''v1.2.3''\<rparr>]\<rparr>)) \<and>
   fst (version_miss (exampleWorld\<lparr>kvPutFails := True, github := Inr [\<lparr>tag_name = ''continuous''\<rparr>, \<lparr>tag_name = ''v1.2.3''\<rparr>]\<rparr>)) =
     Inl (Error ''KV put failed'')"
proof -
  let ?releases = "[\<lparr>tag_name = ''continuous''\<rparr>, \<lparr>tag_name = ''v1.2.3''\<rparr>]"
  let ?r = "\<lparr>tag_name = ''v1.2.3''\<rparr>"
  let ?w = "exampleWorld_part002"
  let ?w' = "snd (version_miss_part002 exampleWorld_part002)"
  let ?u = "exampleWorld\<lparr>kvPutFails := True, github := Inr ?releases\<rparr>"
  let ?request = "exampleRequest ''Deskflow'' ''10.0.0.1''"
  note fallback = version_fallback [where w = ?w and releases = ?releases and r = ?r
      and request = ?request and Date_parse = exampleParse and w' = ?w' and v = "''1.2.3''" and u = ?u]
  have a: "falsy (SlowKV ?w ''version'')" "github ?w = Inr ?releases" "kvPutFails ?w"
    by (simp_all add: exampleWorld_part002_def falsy_def)
  have first: "firstRelease ?releases ?r"
    by (simp add: example_firstRelease)
  have strip: "stripV (tag_name ?r) = ''1.2.3''"
    by (simp add: stripV_def)
  have "falsy (SlowKV ?w ''version'') \<and> github ?w = Inr ?releases \<and> firstRelease ?releases ?r \<and> kvPutFails ?w"
    by (rule conjI, rule a(1), rule conjI, rule a(2), rule conjI, rule first, rule a(3))
  note written = fallback [THEN conjunct1, THEN mp, OF this]
  have returned: "fst (version_miss_part002 ?w) = Inr (ok ''1.2.3'')"
    using written [THEN conjunct1] by (simp only: strip)
  have slow: "SlowKV ?w' ''version'' = Some ''1.2.3''"
    using written [THEN conjunct2, THEN conjunct1] by (simp only: strip)
  have "APP_VERSION ?w ''latest'' = None"
    by (simp add: exampleWorld_part002_def)
  then have "APP_VERSION ?w' ''latest'' = None"
    by (simp only: written [THEN conjunct2, THEN conjunct2])
  then have invalid: "noValidRecord cacheAgeSeconds_part002 exampleParse ?w'"
    unfolding noValidRecord_def by (rule disjI1)
  have nonempty: "''1.2.3'' \<noteq> []" by simp
  have "falsy (searchParams ?request ''fake'') \<and> noValidRecord cacheAgeSeconds_part002 exampleParse ?w' \<and>
      SlowKV ?w' ''version'' = Some ''1.2.3'' \<and> ''1.2.3'' \<noteq> []"
    by (rule conjI, rule example_fake, rule conjI, rule invalid, rule conjI, rule slow, rule nonempty)
  note read = fallback [THEN conjunct2, THEN conjunct1, THEN mp, OF this]
  have served: "fst (version_part002 exampleParse ?request ?w') = Inr (ok ''1.2.3'')"
    by (simp only: read [THEN conjunct1] fst_conv)
  have c: "\<not> falsy (GITHUB_TOKEN ?u)" "github ?u = Inr ?releases" "kvPutFails ?u"
    by (simp_all add: exampleWorld_def falsy_def)
  have "\<not> falsy (GITHUB_TOKEN ?u) \<and> github ?u = Inr ?releases \<and> firstRelease ?releases ?r \<and> kvPutFails ?u"
    by (rule conjI, rule c(1), rule conjI, rule c(2), rule conjI, rule first, rule c(3))
  note thrown = fallback [THEN conjunct2, THEN conjunct2, THEN conjunct1, THEN mp, OF this]
  show ?thesis
    by (intro conjI) (rule a first returned slow invalid served c(1) thrown [THEN conjunct1])+
qed

text \<open>
  Claim C1 as stated fails on the last snapshot: with a KV namespace that rejects writes
  and GitHub answering the release \<^verbatim>\<open>v1.2.3\<close>, the lookup raises the error of the write,
  the slow store holds no version afterwards, and the request is answered with 500.
\<close>

theorem version_put_fails_counterexample:
  "kvPutFails (exampleWorld\<lparr>kvPutFails := True, github := Inr [\<lparr>tag_name = ''v1.2.3''\<rparr>]\<rparr>) \<and>
   fst (version exampleParse (exampleRequest ''Deskflow'' ''10.0.0.1'')
          (exampleWorld\<lparr>kvPutFails := True, github := Inr [\<lparr>tag_name = ''v1.2.3''\<rparr>]\<rparr>)) =
     Inl (Error ''KV put failed'') \<and>
   SlowKV (snd (version exampleParse (exampleRequest ''Deskflow'' ''10.0.0.1'')
          (exampleWorld\<lparr>kvPutFails := True, github := Inr [\<lparr>tag_name = ''v1.2.3''\<rparr>]\<rparr>))) ''version'' = None \<and>
   trace (snd (version exampleParse (exampleRequest ''Deskflow'' ''10.0.0.1'')
          (exampleWorld\<lparr>kvPutFails := True, github := Inr [\<lparr>tag_name = ''v1.2.3''\<rparr>]\<rparr>))) =
     [KVGet ''latest'', GitHubListReleases, KVPut ''latest''] \<and>
   status (fst (fetch exampleParse (exampleRequest ''Deskflow'' ''10.0.0.1'')
          (exampleWorld\<lparr>kvPutFails := True, github := Inr [\<lparr>tag_name = ''v1.2.3''\<rparr>]\<rparr>))) = 500"
  by code_simp

end
